theory Spec2Isabelle
  imports Main "HOL-Library.Sublist" "HOL-Library.AList" "HOL-Library.Char_ord"
    "HOL-Library.List_Lexorder"
begin

section \<open>The activity tracker \<open>track-activity.py\<close>\<close>

text \<open>
  The program is a hook that runs once per tool event: it reads one JSON document from
  standard input, appends a record to \<open>.claude/activity.jsonl\<close>, updates
  \<open>.claude/.session-state.json\<close>, rewrites \<open>.claude/LIVE-PROGRESS.md\<close> on every fifth
  meaningful action, may tick boxes in \<open>CLAUDE.md\<close>, prints one JSON acknowledgement and
  exits.

  Conventions of the model.
  \<^item> A Python \<open>str\<close> is a \<open>string\<close>; a \<open>char\<close> stands for a code point below 256.
  \<^item> A decoded JSON document is a value of \<open>json\<close>; numbers are integers (no floats).
    A dictionary is an association list in insertion order, read with \<open>map_of\<close> and
    written with \<open>AList.update\<close>.
  \<^item> The JSON decoder is not modelled: a text that \<open>json.loads\<close> reads is given by
    what the decoder makes of it (\<open>Unparseable\<close> when it raises \<open>JSONDecodeError\<close>), and
    \<open>json.loads (json.dumps v) = v\<close> is taken for granted.
  \<^item> An exception is a value of \<open>py_error\<close>; a function that may raise returns
    \<open>py_error + 'a\<close>.
  \<^item> The file system is the record \<open>world\<close>; its \<open>journal\<close> lists the side effects of
    the invocation in order (files written, lines printed). Operations of the operating
    system succeed and the files that are read decode; what they hold is arbitrary.
  \<^item> A text file is written in the encoding of the locale, which may not have every
    character (\<open>encodable\<close> in \<open>env\<close>). What \<open>json.dumps\<close> produces is ASCII and is
    always written; the checklist is written from the characters that were read from
    it; the snapshot holds paths and other values of the events and its write may raise
    \<open>UnicodeEncodeError\<close>.
  \<^item> One clock reading per invocation (record \<open>env\<close>).
\<close>

subsection \<open>Strings\<close>

definition NL :: char where
  "NL = CHR 0x0A"

definition BACKSLASH :: char where
  "BACKSLASH = CHR 0x5C"

text \<open>\<open>str.isspace\<close>, which is also the class \<open>\s\<close> of \<open>re\<close> on \<open>str\<close> patterns, for
  code points below 256: U+0009..U+000D, U+001C..U+0020, U+0085, U+00A0.\<close>

definition is_space :: "char \<Rightarrow> bool" where
  "is_space c = (let n = (of_char c :: nat) in
     (9 \<le> n \<and> n \<le> 13) \<or> (28 \<le> n \<and> n \<le> 32) \<or> n = 133 \<or> n = 160)"

text \<open>\<open>str.lower\<close> on one code point below 256: A..Z and U+00C0..U+00DE without the
  multiplication sign U+00D7 move up by 32.\<close>

definition lower_char :: "char \<Rightarrow> char" where
  "lower_char c = (let n = (of_char c :: nat) in
     if (65 \<le> n \<and> n \<le> 90) \<or> (192 \<le> n \<and> n \<le> 222 \<and> n \<noteq> 215)
     then char_of (n + 32) else c)"

definition py_lower :: "string \<Rightarrow> string" where
  "py_lower s = map lower_char s"

definition py_strip :: "string \<Rightarrow> string" where
  "py_strip s = rev (dropWhile is_space (rev (dropWhile is_space s)))"

text \<open>\<open>s.split()\<close>: the maximal runs of characters that are not whitespace.\<close>

fun words_from :: "string \<Rightarrow> string \<Rightarrow> string list" where
  "words_from cur [] = (if cur = [] then [] else [cur])"
| "words_from cur (c # cs) =
     (if is_space c then (if cur = [] then words_from [] cs else cur # words_from [] cs)
      else words_from (cur @ [c]) cs)"

definition py_split :: "string \<Rightarrow> string list" where
  "py_split s = words_from [] s"

text \<open>\<open>s.split('\n')\<close> and \<open>'\n'.join(lines)\<close>.\<close>

fun split_from :: "string \<Rightarrow> string \<Rightarrow> string list" where
  "split_from cur [] = [cur]"
| "split_from cur (c # cs) =
     (if c = NL then cur # split_from [] cs else split_from (cur @ [c]) cs)"

definition split_nl :: "string \<Rightarrow> string list" where
  "split_nl s = split_from [] s"

fun join_nl :: "string list \<Rightarrow> string" where
  "join_nl [] = []"
| "join_nl [l] = l"
| "join_nl (l # ls) = l @ NL # join_nl ls"

text \<open>\<open>s.startswith(p)\<close> and \<open>w in s\<close> on strings.\<close>

fun startswith :: "string \<Rightarrow> string \<Rightarrow> bool" where
  "startswith s [] = True"
| "startswith [] (p # ps) = False"
| "startswith (c # cs) (p # ps) = (c = p \<and> startswith cs ps)"

fun str_in :: "string \<Rightarrow> string \<Rightarrow> bool" where
  "str_in w [] = (w = [])"
| "str_in w (c # cs) = (startswith (c # cs) w \<or> str_in w cs)"

text \<open>\<open>xs[-n:]\<close> for \<open>n > 0\<close>.\<close>

definition last_n :: "nat \<Rightarrow> 'a list \<Rightarrow> 'a list" where
  "last_n n xs = drop (length xs - n) xs"

subsection \<open>JSON values and Python's operations on them\<close>

datatype json =
    JNull
  | JBool bool
  | JInt int
  | JStr string
  | JArr "json list"
  | JObj "(string \<times> json) list"

datatype py_error =
  JSONDecodeError | AttributeError | TypeError | KeyError | UnicodeEncodeError

text \<open>What the JSON decoder makes of a text: standard input, the state file, one line
  of the log.\<close>

datatype parse = Unparseable | Parsed json

text \<open>\<open>bool(v)\<close>.\<close>

fun truthy :: "json \<Rightarrow> bool" where
  "truthy JNull = False"
| "truthy (JBool b) = b"
| "truthy (JInt n) = (n \<noteq> 0)"
| "truthy (JStr s) = (s \<noteq> [])"
| "truthy (JArr xs) = (xs \<noteq> [])"
| "truthy (JObj kv) = (kv \<noteq> [])"

text \<open>\<open>d.get(k, default)\<close> on a dictionary.\<close>

definition get_or :: "(string \<times> json) list \<Rightarrow> string \<Rightarrow> json \<Rightarrow> json" where
  "get_or kv k d = (case map_of kv k of Some v \<Rightarrow> v | None \<Rightarrow> d)"

text \<open>\<open>v.get(k, default)\<close> on any value: only a dictionary has the method.\<close>

fun py_get :: "json \<Rightarrow> string \<Rightarrow> json \<Rightarrow> py_error + json" where
  "py_get (JObj kv) k d = Inr (get_or kv k d)"
| "py_get v k d = Inl AttributeError"

text \<open>\<open>v[k]\<close> with a string key: \<open>KeyError\<close> on a dictionary without the key,
  \<open>TypeError\<close> on every other value.\<close>

fun py_item :: "json \<Rightarrow> string \<Rightarrow> py_error + json" where
  "py_item (JObj kv) k = (case map_of kv k of Some v \<Rightarrow> Inr v | None \<Rightarrow> Inl KeyError)"
| "py_item v k = Inl TypeError"

text \<open>\<open>len(v)\<close>.\<close>

fun py_len :: "json \<Rightarrow> py_error + nat" where
  "py_len (JStr s) = Inr (length s)"
| "py_len (JArr xs) = Inr (length xs)"
| "py_len (JObj kv) = Inr (length kv)"
| "py_len v = Inl TypeError"

text \<open>\<open>w in v\<close> for a string \<open>w\<close>: substring of a string, element of a list, key of a
  dictionary; the other values are not containers.\<close>

fun py_in :: "string \<Rightarrow> json \<Rightarrow> py_error + bool" where
  "py_in w (JStr s) = Inr (str_in w s)"
| "py_in w (JArr xs) = Inr (JStr w \<in> set xs)"
| "py_in w (JObj kv) = Inr (w \<in> fst ` set kv)"
| "py_in w v = Inl TypeError"

subsection \<open>The environment and the file system\<close>

text \<open>What an f-string holds before its values are formatted: literal text, a value
  formatted by \<open>str\<close>, a number, the text of an exception.\<close>

datatype frag = Lit string | Val json | Num int | Err py_error

text \<open>The acknowledgement printed on standard output: \<open>{}\<close> or
  \<open>{"systemMessage": ...}\<close>.\<close>

datatype ack = AckEmpty | AckMessage "frag list"

record counts =
  edits :: nat
  writes :: nat
  reads :: nat
  commands :: nat
  tasks :: nat
  other :: nat

text \<open>The values that fill the template of \<open>LIVE-PROGRESS.md\<close>.\<close>

record snapshot =
  updated_at :: string
  actions :: json
  since :: json
  table :: counts
  tasks_list :: "frag list"
  milestones_list :: "frag list"
  files_list :: "frag list"

text \<open>What \<open>LIVE-PROGRESS.md\<close> holds: a rendered snapshot, or nothing after a write
  that opened (and so truncated) the file and then raised.\<close>

datatype progress = Blank | Rendered snapshot

datatype effect =
    Mkdir
  | LogAppend parse
  | StateSave json
  | SnapshotWrite snapshot
  | SnapshotTruncate
  | RoadmapWrite string
  | Print ack

record world =
  claude_dir :: bool
  state_file :: "parse option"
  activity_file :: "parse list option"
  progress_file :: "progress option"
  claude_md :: "string option"
  journal :: "effect list"

record env =
  utc_iso :: string
  local_hms :: string
  local_ymd :: string
  session_id :: "string option"
  rel_to_cwd :: "string \<Rightarrow> string option"
  py_str :: "json \<Rightarrow> string"
  encodable :: "char \<Rightarrow> bool"

text \<open>
  \<open>utc_iso\<close> is \<open>datetime.utcnow().isoformat()\<close>, \<open>local_hms\<close> and \<open>local_ymd\<close> are
  \<open>datetime.now()\<close> formatted with \<open>%H:%M:%S\<close> and \<open>%Y-%m-%d\<close>, \<open>session_id\<close> is the
  environment variable \<open>CLAUDE_SESSION_ID\<close>, \<open>rel_to_cwd p\<close> is
  \<open>str(Path(p).relative_to(Path.cwd()))\<close> (\<open>None\<close> when it raises \<open>ValueError\<close>),
  \<open>py_str v\<close> is \<open>str(v)\<close>, and \<open>encodable c\<close> says that the encoding of the locale has
  the character \<open>c\<close>. The two clocks are read at the same moment: \<open>utc_iso\<close> and the
  local date and time differ by the offset of the time zone.
\<close>

definition emit :: "effect \<Rightarrow> world \<Rightarrow> world" where
  "emit x w = w\<lparr>journal := journal w @ [x]\<rparr>"

definition print :: "ack \<Rightarrow> world \<Rightarrow> world" where
  "print a w = emit (Print a) w"

subsection \<open>Configuration\<close>

definition UPDATE_INTERVAL :: int where
  "UPDATE_INTERVAL = 5"

definition MEANINGFUL_TOOLS :: "string list" where
  "MEANINGFUL_TOOLS =
     [''Edit'', ''Write'', ''MultiEdit'', ''Bash'', ''NotebookEdit'', ''TaskUpdate'']"

subsection \<open>\<open>get_claude_dir\<close>, \<open>load_state\<close>, \<open>save_state\<close>\<close>

definition get_claude_dir :: "world \<Rightarrow> world" where
  "get_claude_dir w = emit Mkdir (w\<lparr>claude_dir := True\<rparr>)"

definition default_state :: "env \<Rightarrow> json" where
  "default_state e = JObj
     [(''action_count'', JInt 0),
      (''completed_tasks'', JArr []),
      (''session_start'', JStr (local_hms e)),
      (''milestones'', JArr [])]"

definition load_state :: "env \<Rightarrow> world \<Rightarrow> json" where
  "load_state e w =
     (case state_file w of
        Some (Parsed v) \<Rightarrow> v
      | Some Unparseable \<Rightarrow> default_state e
      | None \<Rightarrow> default_state e)"

definition save_state :: "json \<Rightarrow> world \<Rightarrow> world" where
  "save_state st w = emit (StateSave st) (w\<lparr>state_file := Some (Parsed st)\<rparr>)"

subsection \<open>\<open>append_activity\<close>\<close>

text \<open>Line 74: \<open>cmd[:100] + "..." if len(cmd) > 100 else cmd\<close>. A list longer than
  100 cannot be added to a string, a dictionary cannot be sliced.\<close>

definition truncate_command :: "json \<Rightarrow> py_error + json" where
  "truncate_command cmd =
     (case py_len cmd of
        Inl x \<Rightarrow> Inl x
      | Inr n \<Rightarrow>
          if n > 100 then
            (case cmd of
               JStr s \<Rightarrow> Inr (JStr (take 100 s @ ''...''))
             | _ \<Rightarrow> Inl TypeError)
          else Inr cmd)"

text \<open>Lines 70 to 74, for a \<open>tool_input\<close> that is a dictionary.\<close>

definition add_context ::
  "(string \<times> json) list \<Rightarrow> (string \<times> json) list \<Rightarrow> py_error + (string \<times> json) list" where
  "add_context ti entry =
     (case map_of ti ''file_path'' of
        Some fp \<Rightarrow> Inr (AList.update ''file'' fp entry)
      | None \<Rightarrow>
          (case map_of ti ''command'' of
             Some cmd \<Rightarrow>
               (case truncate_command cmd of
                  Inl x \<Rightarrow> Inl x
                | Inr c \<Rightarrow> Inr (AList.update ''command'' c entry))
           | None \<Rightarrow> Inr entry))"

text \<open>Lines 77 to 81.\<close>

definition add_task ::
  "(string \<times> json) list \<Rightarrow> (string \<times> json) list \<Rightarrow> (string \<times> json) list \<Rightarrow>
     (string \<times> json) list" where
  "add_task data ti entry =
     (if get_or data ''tool_name'' JNull = JStr ''TaskUpdate'' then
        (let entry1 = AList.update ''task_id'' (get_or ti ''taskId'' JNull) entry;
             entry2 = AList.update ''task_status'' (get_or ti ''status'' JNull) entry1
         in if get_or ti ''status'' JNull = JStr ''completed''
            then AList.update ''task_completed'' (JBool True) entry2
            else entry2)
      else entry)"

definition new_entry :: "env \<Rightarrow> (string \<times> json) list \<Rightarrow> (string \<times> json) list" where
  "new_entry e data =
     [(''timestamp'', JStr (utc_iso e @ ''Z'')),
      (''time_local'', JStr (local_hms e)),
      (''tool'', get_or data ''tool_name'' (JStr ''unknown'')),
      (''session_id'', JStr (case session_id e of Some s \<Rightarrow> s | None \<Rightarrow> ''unknown''))]"

text \<open>The record of the event, lines 60 to 81.\<close>

definition build_entry :: "env \<Rightarrow> (string \<times> json) list \<Rightarrow> py_error + (string \<times> json) list" where
  "build_entry e data =
     (case get_or data ''tool_input'' (JObj []) of
        JObj ti \<Rightarrow>
          (case add_context ti (new_entry e data) of
             Inl x \<Rightarrow> Inl x
           | Inr entry \<Rightarrow> Inr (add_task data ti entry))
      | _ \<Rightarrow> Inr (new_entry e data))"

definition log_lines :: "world \<Rightarrow> parse list" where
  "log_lines w = (case activity_file w of None \<Rightarrow> [] | Some ls \<Rightarrow> ls)"

text \<open>Lines 83 and 84: the file is opened for appending, which creates it.\<close>

definition append_line :: "parse \<Rightarrow> world \<Rightarrow> world" where
  "append_line l w = emit (LogAppend l) (w\<lparr>activity_file := Some (log_lines w @ [l])\<rparr>)"

definition append_activity ::
  "env \<Rightarrow> (string \<times> json) list \<Rightarrow> world \<Rightarrow> (py_error + (string \<times> json) list) \<times> world" where
  "append_activity e data w =
     (case build_entry e data of
        Inl x \<Rightarrow> (Inl x, w)
      | Inr entry \<Rightarrow> (Inr entry, append_line (Parsed (JObj entry)) w))"

subsection \<open>Scanning the log: \<open>extract_completed_tasks\<close>, \<open>count_activity\<close>\<close>

text \<open>The loop \<open>for line in f\<close>: the body runs on each line in turn and an exception
  that leaves the body ends the loop.\<close>

fun scan :: "(parse \<Rightarrow> 'a \<Rightarrow> py_error + 'a) \<Rightarrow> parse list \<Rightarrow> 'a \<Rightarrow> py_error + 'a" where
  "scan body [] acc = Inr acc"
| "scan body (l # ls) acc =
     (case body l acc of Inl x \<Rightarrow> Inl x | Inr acc' \<Rightarrow> scan body ls acc')"

text \<open>\<open>entry.get("timestamp", "").startswith(today)\<close>, lines 103 and 130: a value
  that is not a dictionary has no \<open>get\<close>, a timestamp that is not a string has no
  \<open>startswith\<close>.\<close>

definition is_today :: "env \<Rightarrow> json \<Rightarrow> py_error + bool" where
  "is_today e v =
     (case py_get v ''timestamp'' (JStr []) of
        Inl x \<Rightarrow> Inl x
      | Inr (JStr ts) \<Rightarrow> Inr (startswith ts (local_ymd e))
      | Inr _ \<Rightarrow> Inl AttributeError)"

text \<open>Lines 101 to 110. Only \<open>JSONDecodeError\<close> is caught.\<close>

definition completed_line ::
  "env \<Rightarrow> parse \<Rightarrow> (json \<times> json) list \<Rightarrow> py_error + (json \<times> json) list" where
  "completed_line e l completed =
     (case l of
        Unparseable \<Rightarrow> Inr completed
      | Parsed v \<Rightarrow>
          (case is_today e v of
             Inl x \<Rightarrow> Inl x
           | Inr False \<Rightarrow> Inr completed
           | Inr True \<Rightarrow>
               (case v of
                  JObj entry \<Rightarrow>
                    if truthy (get_or entry ''task_completed'' JNull)
                    then Inr (completed @
                      [(get_or entry ''task_id'' JNull, get_or entry ''time_local'' JNull)])
                    else Inr completed
                | _ \<Rightarrow> Inl AttributeError)))"

text \<open>A completed task is the pair of its \<open>id\<close> and its \<open>time\<close>.\<close>

definition extract_completed_tasks :: "env \<Rightarrow> world \<Rightarrow> py_error + (json \<times> json) list" where
  "extract_completed_tasks e w =
     (case activity_file w of
        None \<Rightarrow> Inr []
      | Some ls \<Rightarrow> scan (completed_line e) ls [])"

definition no_counts :: counts where
  "no_counts = \<lparr>edits = 0, writes = 0, reads = 0, commands = 0, tasks = 0, other = 0\<rparr>"

text \<open>Lines 133 to 145.\<close>

definition classify :: "json \<Rightarrow> counts \<Rightarrow> counts" where
  "classify tool c =
     (if tool = JStr ''Edit'' \<or> tool = JStr ''MultiEdit'' then c\<lparr>edits := edits c + 1\<rparr>
      else if tool = JStr ''Write'' then c\<lparr>writes := writes c + 1\<rparr>
      else if tool = JStr ''Read'' then c\<lparr>reads := reads c + 1\<rparr>
      else if tool = JStr ''Bash'' then c\<lparr>commands := commands c + 1\<rparr>
      else if tool = JStr ''TaskUpdate'' \<or> tool = JStr ''TaskCreate''
        then c\<lparr>tasks := tasks c + 1\<rparr>
      else c\<lparr>other := other c + 1\<rparr>)"

text \<open>Lines 147 to 153: \<open>Path(file_path)\<close> raises \<open>TypeError\<close> unless the path is a
  string; the \<open>ValueError\<close> of \<open>relative_to\<close> is caught and leaves the path as it is.
  The set \<open>files_touched\<close> is a list without repetitions.\<close>

definition touch :: "env \<Rightarrow> json \<Rightarrow> string list \<Rightarrow> py_error + string list" where
  "touch e fp files =
     (case fp of
        JStr p \<Rightarrow> Inr (List.insert (case rel_to_cwd e p of Some r \<Rightarrow> r | None \<Rightarrow> p) files)
      | _ \<Rightarrow> Inl TypeError)"

text \<open>Lines 128 to 155. Only \<open>JSONDecodeError\<close> is caught.\<close>

definition count_line ::
  "env \<Rightarrow> parse \<Rightarrow> counts \<times> string list \<Rightarrow> py_error + counts \<times> string list" where
  "count_line e l acc =
     (case l of
        Unparseable \<Rightarrow> Inr acc
      | Parsed v \<Rightarrow>
          (case is_today e v of
             Inl x \<Rightarrow> Inl x
           | Inr False \<Rightarrow> Inr acc
           | Inr True \<Rightarrow>
               (case v of
                  JObj entry \<Rightarrow>
                    (let c = classify (get_or entry ''tool'' (JStr [])) (fst acc) in
                     case map_of entry ''file'' of
                       None \<Rightarrow> Inr (c, snd acc)
                     | Some fp \<Rightarrow>
                         (case touch e fp (snd acc) of
                            Inl x \<Rightarrow> Inl x
                          | Inr files \<Rightarrow> Inr (c, files)))
                | _ \<Rightarrow> Inl AttributeError)))"

definition count_activity :: "env \<Rightarrow> world \<Rightarrow> py_error + counts \<times> string list" where
  "count_activity e w =
     (case activity_file w of
        None \<Rightarrow> Inr (no_counts, [])
      | Some ls \<Rightarrow> scan (count_line e) ls (no_counts, []))"

subsection \<open>\<open>update_live_progress\<close>\<close>

text \<open>Lines 169 to 171. Every item \<open>- f\<close> is not empty, so the joined text is empty
  exactly when no file was touched.\<close>

definition format_files :: "string list \<Rightarrow> frag list" where
  "format_files files =
     (let joined = join_nl (map (\<lambda>f. ''- '' @ f) (take 15 (sort files)))
      in [Lit (if joined = [] then ''- (none yet)'' else joined)] @
         (if length files > 15
          then [Lit (NL # ''- ... and ''), Num (int (length files) - 15), Lit '' more'']
          else []))"

text \<open>Lines 174 to 178.\<close>

definition format_tasks :: "(json \<times> json) list \<Rightarrow> frag list" where
  "format_tasks completed =
     (if completed = [] then []
      else Lit (NL # ''## Completed Tasks'' @ [NL]) #
        concat (map (\<lambda>(i, t). [Lit ''- Task #'', Val i, Lit '' at '', Val t, Lit [NL]])
          (last_n 10 completed)))"

text \<open>Line 185, one round of the loop: \<open>m['time']\<close> and \<open>m['description']\<close>.\<close>

definition format_milestone :: "json \<Rightarrow> py_error + frag list" where
  "format_milestone m =
     (case py_item m ''time'' of
        Inl x \<Rightarrow> Inl x
      | Inr t \<Rightarrow>
          (case py_item m ''description'' of
             Inl x \<Rightarrow> Inl x
           | Inr d \<Rightarrow> Inr [Lit ''- ['', Val t, Lit ''] '', Val d, Lit [NL]]))"

fun format_each :: "json list \<Rightarrow> frag list \<Rightarrow> py_error + frag list" where
  "format_each [] acc = Inr acc"
| "format_each (m # ms) acc =
     (case format_milestone m of Inl x \<Rightarrow> Inl x | Inr fs \<Rightarrow> format_each ms (acc @ fs))"

definition MILESTONES_HEADER :: frag where
  "MILESTONES_HEADER = Lit (NL # ''## Milestones'' @ [NL])"

text \<open>Lines 181 to 185, for a state that is a dictionary. A true value that is not a
  list either cannot be sliced (a number, \<open>True\<close>, a dictionary) or, being a string, yields
  one-character strings, whose \<open>m['time']\<close> raises \<open>TypeError\<close>.\<close>

definition format_milestones :: "(string \<times> json) list \<Rightarrow> py_error + frag list" where
  "format_milestones st =
     (let ms = get_or st ''milestones'' JNull in
      if truthy ms then
        (case ms of
           JArr xs \<Rightarrow> format_each (last_n 5 xs) [MILESTONES_HEADER]
         | _ \<Rightarrow> Inl TypeError)
      else Inr [])"

text \<open>Lines 162 to 206: the values of the rendered document, or the exception.\<close>

definition derive_snapshot :: "env \<Rightarrow> json \<Rightarrow> world \<Rightarrow> py_error + snapshot" where
  "derive_snapshot e state w =
     (case count_activity e w of
        Inl x \<Rightarrow> Inl x
      | Inr (cnts, files_touched) \<Rightarrow>
     (case extract_completed_tasks e w of
        Inl x \<Rightarrow> Inl x
      | Inr completed_tasks \<Rightarrow>
     (case state of
        JObj st \<Rightarrow>
          (case format_milestones st of
             Inl x \<Rightarrow> Inl x
           | Inr ms \<Rightarrow>
               (case map_of st ''action_count'' of
                  None \<Rightarrow> Inl KeyError
                | Some n \<Rightarrow> Inr
                    \<lparr>updated_at = local_hms e,
                     actions = n,
                     since = get_or st ''session_start'' (JStr (local_hms e)),
                     table = cnts,
                     tasks_list = format_tasks completed_tasks,
                     milestones_list = ms,
                     files_list = format_files files_touched\<rparr>))
      | _ \<Rightarrow> Inl AttributeError)))"

text \<open>The template of lines 187 to 206.\<close>

definition render :: "snapshot \<Rightarrow> frag list" where
  "render s =
     [Lit (''# Live Session Progress'' @ [NL, NL] @ ''*Auto-updated: ''),
      Lit (updated_at s), Lit '' | Actions: '', Val (actions s),
      Lit (''*'' @ [NL, NL] @ ''## Activity (since ''), Val (since s),
      Lit ('')'' @ [NL] @ ''| Type | Count |'' @ [NL] @ ''|------|-------|'' @ [NL]
        @ ''| Edits | ''), Num (int (edits (table s))),
      Lit ('' |'' @ [NL] @ ''| Writes | ''), Num (int (writes (table s))),
      Lit ('' |'' @ [NL] @ ''| Commands | ''), Num (int (commands (table s))),
      Lit ('' |'' @ [NL] @ ''| Tasks | ''), Num (int (tasks (table s))),
      Lit ('' |'' @ [NL] @ ''| Reads | ''), Num (int (reads (table s))),
      Lit ('' |'' @ [NL])]
     @ tasks_list s @ [Lit [NL]] @ milestones_list s
     @ [Lit (NL # ''## Files Touched'' @ [NL])] @ files_list s
     @ [Lit ([NL, NL] @ ''---'' @ [NL] @ ''*Updates every ''), Num UPDATE_INTERVAL,
        Lit ('' meaningful actions. Full summary on session end.*'' @ [NL])]"

text \<open>The text that the fragments format to. The text of an exception is part of no
  file.\<close>

fun frag_text :: "env \<Rightarrow> frag \<Rightarrow> string" where
  "frag_text e (Lit s) = s"
| "frag_text e (Val v) = py_str e v"
| "frag_text e (Num n) = py_str e (JInt n)"
| "frag_text e (Err x) = []"

definition document_text :: "env \<Rightarrow> frag list \<Rightarrow> string" where
  "document_text e fs = concat (map (frag_text e) fs)"

text \<open>Lines 208 and 209. \<open>write_text\<close> opens the file for writing, which empties it,
  and encodes the text; a character that the encoding of the locale does not have
  raises \<open>UnicodeEncodeError\<close> and leaves the file empty.\<close>

definition write_progress :: "env \<Rightarrow> snapshot \<Rightarrow> world \<Rightarrow> (py_error + unit) \<times> world" where
  "write_progress e s w =
     (if list_all (encodable e) (document_text e (render s))
      then (Inr (), emit (SnapshotWrite s) (w\<lparr>progress_file := Some (Rendered s)\<rparr>))
      else (Inl UnicodeEncodeError, emit SnapshotTruncate (w\<lparr>progress_file := Some Blank\<rparr>)))"

definition update_live_progress :: "env \<Rightarrow> json \<Rightarrow> world \<Rightarrow> (py_error + unit) \<times> world" where
  "update_live_progress e state w =
     (case derive_snapshot e state w of
        Inl x \<Rightarrow> (Inl x, w)
      | Inr s \<Rightarrow> write_progress e s w)"

subsection \<open>\<open>try_update_roadmap\<close>\<close>

text \<open>
  Line 230: \<open>re.match(r'^(\s*[-*]\s*)\[\s*\](\s*.+)$', line)\<close>, on a line without a
  newline (the lines come from \<open>split('\n')\<close>). No whitespace character is a marker or a
  bracket, so each \<open>\s*\<close> takes the whole run of whitespace; \<open>.\<close> is any character
  but the newline, so \<open>\s*.+$\<close> matches every text that is not empty. The result is the
  pair of the two groups.
\<close>

definition match_unchecked :: "string \<Rightarrow> (string \<times> string) option" where
  "match_unchecked line =
     (case dropWhile is_space line of
        [] \<Rightarrow> None
      | m # r2 \<Rightarrow>
          if m = CHR ''-'' \<or> m = CHR ''*'' then
            (case dropWhile is_space r2 of
               [] \<Rightarrow> None
             | b # r4 \<Rightarrow>
                 if b = CHR ''['' then
                   (case dropWhile is_space r4 of
                      [] \<Rightarrow> None
                    | d # rest \<Rightarrow>
                        if d = CHR '']'' \<and> rest \<noteq> []
                        then Some (takeWhile is_space line @ m # takeWhile is_space r2, rest)
                        else None)
                 else None)
          else None)"

text \<open>Lines 232 to 237, for one line: the new line, and whether it was set.\<close>

definition check_line :: "string \<Rightarrow> string \<Rightarrow> string \<times> bool" where
  "check_line subject_lower line =
     (case match_unchecked line of
        None \<Rightarrow> (line, False)
      | Some (g1, g2) \<Rightarrow>
          (let item_text = py_lower (py_strip g2);
               words = filter (\<lambda>w. length w > 3) (py_split item_text)
           in if words \<noteq> [] \<and> list_ex (\<lambda>w. str_in w subject_lower) words
              then (g1 @ ''[x]'' @ g2, True)
              else (line, False)))"

text \<open>Lines 214 to 242. A subject that is not a string has no \<open>lower\<close>; the exception
  is swallowed by the handler of line 241.\<close>

definition try_update_roadmap :: "json \<Rightarrow> world \<Rightarrow> world" where
  "try_update_roadmap subject w =
     (case claude_md w of
        None \<Rightarrow> w
      | Some content \<Rightarrow>
          (case subject of
             JStr s \<Rightarrow>
               (let checked = map (check_line (py_lower s)) (split_nl content)
                in if list_ex snd checked
                   then emit (RoadmapWrite (join_nl (map fst checked)))
                     (w\<lparr>claude_md := Some (join_nl (map fst checked))\<rparr>)
                   else w)
           | _ \<Rightarrow> w))"

text \<open>\<open>ROADMAP_PATTERNS\<close>, lines 21 to 24, is used nowhere in the program. Its second
  pattern \<open>^(\d+)\.\s*\[\s*\]\s*(.+)$\<close> is about lines such as \<open>1. [ ] task\<close>.\<close>

subsection \<open>\<open>main\<close>\<close>

text \<open>How a block of statements ends: at its last statement, by \<open>return\<close>, by
  \<open>sys.exit\<close> (a \<open>SystemExit\<close>, which is not an \<open>Exception\<close>), or by an exception.\<close>

datatype ctl = Fallthrough | Returned | Exited int | Raised py_error

text \<open>Lines 254 to 256. \<open>or\<close> evaluates its second operand only when the first is
  false.\<close>

definition recursion_guard :: "json \<Rightarrow> py_error + bool" where
  "recursion_guard tool_input =
     (case tool_input of
        JObj ti \<Rightarrow>
          (let file_path = get_or ti ''file_path'' (JStr []) in
           case py_in ''.claude/'' file_path of
             Inl x \<Rightarrow> Inl x
           | Inr True \<Rightarrow> Inr True
           | Inr False \<Rightarrow> py_in (''.claude'' @ [BACKSLASH]) file_path)
      | _ \<Rightarrow> Inr False)"

text \<open>Lines 267 and 295: \<open>tool_name == "TaskUpdate" and tool_input.get("status") ==
  "completed"\<close>.\<close>

definition is_completion :: "json \<Rightarrow> json \<Rightarrow> py_error + bool" where
  "is_completion tool_name tool_input =
     (if tool_name = JStr ''TaskUpdate'' then
        (case py_get tool_input ''status'' JNull of
           Inl x \<Rightarrow> Inl x
         | Inr s \<Rightarrow> Inr (s = JStr ''completed''))
      else Inr False)"

text \<open>Line 270: \<open>state["completed_tasks"].append(...)\<close>.\<close>

definition append_completed :: "json \<Rightarrow> json \<Rightarrow> py_error + json" where
  "append_completed state task =
     (case py_item state ''completed_tasks'' of
        Inl x \<Rightarrow> Inl x
      | Inr (JArr xs) \<Rightarrow>
          (case state of
             JObj st \<Rightarrow> Inr (JObj (AList.update ''completed_tasks'' (JArr (xs @ [task])) st))
           | _ \<Rightarrow> Inl TypeError)
      | Inr _ \<Rightarrow> Inl AttributeError)"

text \<open>Lines 267 to 276.\<close>

definition track_completion ::
  "env \<Rightarrow> json \<Rightarrow> json \<Rightarrow> json \<Rightarrow> world \<Rightarrow> (py_error + json) \<times> world" where
  "track_completion e tool_name tool_input state w =
     (case is_completion tool_name tool_input of
        Inl x \<Rightarrow> (Inl x, w)
      | Inr False \<Rightarrow> (Inr state, w)
      | Inr True \<Rightarrow>
          (case tool_input of
             JObj ti \<Rightarrow>
               (let task_id = get_or ti ''taskId'' JNull;
                    subject = get_or ti ''subject'' (JStr (''Task #'' @ py_str e task_id))
                in case append_completed state
                     (JObj [(''id'', task_id), (''subject'', subject),
                            (''time'', JStr (local_hms e))]) of
                     Inl x \<Rightarrow> (Inl x, w)
                   | Inr state' \<Rightarrow> (Inr state', try_update_roadmap subject w))
           | _ \<Rightarrow> (Inl AttributeError, w)))"

text \<open>Line 279: \<open>tool_name in MEANINGFUL_TOOLS\<close>. A list or a dictionary cannot be
  hashed.\<close>

fun is_meaningful :: "json \<Rightarrow> py_error + bool" where
  "is_meaningful (JStr s) = Inr (s \<in> set MEANINGFUL_TOOLS)"
| "is_meaningful (JArr xs) = Inl TypeError"
| "is_meaningful (JObj kv) = Inl TypeError"
| "is_meaningful v = Inr False"

text \<open>Line 280: \<open>state["action_count"] += 1\<close>. \<open>True + 1\<close> is \<open>2\<close>.\<close>

definition increment :: "json \<Rightarrow> py_error + int \<times> json" where
  "increment state =
     (case py_item state ''action_count'' of
        Inl x \<Rightarrow> Inl x
      | Inr v \<Rightarrow>
          (case state of
             JObj st \<Rightarrow>
               (case v of
                  JInt n \<Rightarrow> Inr (n + 1, JObj (AList.update ''action_count'' (JInt (n + 1)) st))
                | JBool b \<Rightarrow>
                    Inr ((if b then 1 else 0) + 1,
                      JObj (AList.update ''action_count'' (JInt ((if b then 1 else 0) + 1)) st))
                | _ \<Rightarrow> Inl TypeError)
           | _ \<Rightarrow> Inl TypeError))"

text \<open>Lines 294 to 301. The check mark that opens the source's message is a code point
  above 255 and is left out of the literal.\<close>

definition final_ack :: "json \<Rightarrow> json \<Rightarrow> world \<Rightarrow> ctl \<times> world" where
  "final_ack tool_name tool_input w =
     (case is_completion tool_name tool_input of
        Inl x \<Rightarrow> (Raised x, w)
      | Inr True \<Rightarrow>
          (case py_get tool_input ''taskId'' JNull of
             Inl x \<Rightarrow> (Raised x, w)
           | Inr i \<Rightarrow>
               (Fallthrough,
                print (AckMessage [Lit ''Task #'', Val i, Lit '' logged as completed'']) w))
      | Inr False \<Rightarrow> (Fallthrough, print AckEmpty w))"

text \<open>Lines 283 to 290. The chart sign that opens the source's message is left out of
  the literal, and its arrow is written \<open>->\<close>.\<close>

definition progress_update :: "env \<Rightarrow> int \<Rightarrow> json \<Rightarrow> world \<Rightarrow> ctl \<times> world" where
  "progress_update e n state w =
     (case update_live_progress e state w of
        (Inl x, w1) \<Rightarrow> (Raised x, w1)
      | (Inr u, w1) \<Rightarrow>
          (Exited 0,
           print (AckMessage [Lit ''Progress updated ('', Num n,
                    Lit '' actions) -> .claude/LIVE-PROGRESS.md''])
             (save_state state w1)))"

text \<open>Lines 279 to 301.\<close>

definition count_and_finish :: "env \<Rightarrow> json \<Rightarrow> json \<Rightarrow> json \<Rightarrow> world \<Rightarrow> ctl \<times> world" where
  "count_and_finish e tool_name tool_input state w =
     (case is_meaningful tool_name of
        Inl x \<Rightarrow> (Raised x, w)
      | Inr False \<Rightarrow> final_ack tool_name tool_input (save_state state w)
      | Inr True \<Rightarrow>
          (case increment state of
             Inl x \<Rightarrow> (Raised x, w)
           | Inr (n, state') \<Rightarrow>
               if n mod UPDATE_INTERVAL = 0 then progress_update e n state' w
               else final_ack tool_name tool_input (save_state state' w)))"

text \<open>Lines 260 to 301.\<close>

definition pipeline ::
  "env \<Rightarrow> (string \<times> json) list \<Rightarrow> json \<Rightarrow> json \<Rightarrow> world \<Rightarrow> ctl \<times> world" where
  "pipeline e input_data tool_name tool_input w =
     (let w0 = get_claude_dir w;
          state = load_state e w0
      in case append_activity e input_data w0 of
           (Inl x, w1) \<Rightarrow> (Raised x, w1)
         | (Inr entry, w1) \<Rightarrow>
             (case track_completion e tool_name tool_input state w1 of
                (Inl x, w2) \<Rightarrow> (Raised x, w2)
              | (Inr state', w2) \<Rightarrow> count_and_finish e tool_name tool_input state' w2))"

text \<open>The \<open>try\<close> block, lines 247 to 301. A document that is not a dictionary has no
  \<open>get\<close>.\<close>

definition main_try :: "env \<Rightarrow> parse \<Rightarrow> world \<Rightarrow> ctl \<times> world" where
  "main_try e stdin w =
     (case stdin of
        Unparseable \<Rightarrow> (Raised JSONDecodeError, w)
      | Parsed (JObj input_data) \<Rightarrow>
          (let tool_name = get_or input_data ''tool_name'' (JStr []);
               tool_input = get_or input_data ''tool_input'' (JObj [])
           in case recursion_guard tool_input of
                Inl x \<Rightarrow> (Raised x, w)
              | Inr True \<Rightarrow> (Returned, print AckEmpty w)
              | Inr False \<Rightarrow> pipeline e input_data tool_name tool_input w)
      | Parsed _ \<Rightarrow> (Raised AttributeError, w))"

text \<open>
  \<open>main\<close> and the end of the process: the exit status and the world. The handler of
  line 303 catches every \<open>Exception\<close>, prints and goes on to \<open>sys.exit(0)\<close> of line 307;
  a \<open>SystemExit\<close> raised inside the \<open>try\<close> block passes the handler; after \<open>return\<close> the
  script ends and the interpreter exits with status 0.
\<close>

definition main :: "env \<Rightarrow> parse \<Rightarrow> world \<Rightarrow> int \<times> world" where
  "main e stdin w =
     (case main_try e stdin w of
        (Raised x, w') \<Rightarrow> (0, print (AckMessage [Lit ''Activity tracker: '', Err x]) w')
      | (Fallthrough, w') \<Rightarrow> (0, w')
      | (Returned, w') \<Rightarrow> (0, w')
      | (Exited n, w') \<Rightarrow> (n, w'))"

subsection \<open>Invocations and runs\<close>

text \<open>One invocation is one process: its journal starts empty. A run is a sequence of
  invocations on the same directory, each with its clock reading and its standard
  input; it yields the world after each invocation.\<close>

definition invoke :: "env \<times> parse \<Rightarrow> world \<Rightarrow> int \<times> world" where
  "invoke ev w = main (fst ev) (snd ev) (w\<lparr>journal := []\<rparr>)"

fun run :: "world \<Rightarrow> (env \<times> parse) list \<Rightarrow> (int \<times> world) list" where
  "run w [] = []"
| "run w (ev # evs) = invoke ev w # run (snd (invoke ev w)) evs"

definition printed :: "world \<Rightarrow> ack list" where
  "printed w = concat (map (\<lambda>x. case x of Print a \<Rightarrow> [a] | _ \<Rightarrow> []) (journal w))"

definition snapshots_written :: "world \<Rightarrow> snapshot list" where
  "snapshots_written w =
     concat (map (\<lambda>x. case x of SnapshotWrite s \<Rightarrow> [s] | _ \<Rightarrow> []) (journal w))"

definition states_saved :: "world \<Rightarrow> json list" where
  "states_saved w = concat (map (\<lambda>x. case x of StateSave s \<Rightarrow> [s] | _ \<Rightarrow> []) (journal w))"

definition lines_appended :: "world \<Rightarrow> parse list" where
  "lines_appended w = concat (map (\<lambda>x. case x of LogAppend l \<Rightarrow> [l] | _ \<Rightarrow> []) (journal w))"

subsection \<open>How an invocation may end\<close>

text \<open>\<open>tidy w r\<close>: the block that started in world \<open>w\<close> and ended as \<open>r\<close> has printed
  nothing when it raised, and exactly one acknowledgement otherwise; and it has left by
  \<open>sys.exit\<close> only with status 0.\<close>

fun tidy :: "world \<Rightarrow> ctl \<times> world \<Rightarrow> bool" where
  "tidy w (Raised x, w') = (printed w' = printed w)"
| "tidy w (Exited n, w') = (n = 0 \<and> (\<exists>a. printed w' = printed w @ [a]))"
| "tidy w (Fallthrough, w') = (\<exists>a. printed w' = printed w @ [a])"
| "tidy w (Returned, w') = (\<exists>a. printed w' = printed w @ [a])"

subsection \<open>Example inputs\<close>

definition env0 :: env where
  "env0 = \<lparr>utc_iso = ''2026-11-04T10:00:00.000000'', local_hms = ''11:00:00'',
     local_ymd = ''2026-11-04'', session_id = None, rel_to_cwd = (\<lambda>p. None),
     py_str = (\<lambda>v. case v of JStr s \<Rightarrow> s | _ \<Rightarrow> ''?''), encodable = (\<lambda>c. True)\<rparr>"

definition fresh :: world where
  "fresh = \<lparr>claude_dir = False, state_file = None, activity_file = None,
     progress_file = None, claude_md = None, journal = []\<rparr>"

definition tool_event :: "string \<Rightarrow> (string \<times> json) list \<Rightarrow> (string \<times> json) list" where
  "tool_event tool ti = [(''tool_name'', JStr tool), (''tool_input'', JObj ti)]"


definition edit_event :: "string \<Rightarrow> env \<times> parse" where
  "edit_event p = (env0, Parsed (JObj (tool_event ''Edit'' [(''file_path'', JStr p)])))"

definition five_edits :: "(env \<times> parse) list" where
  "five_edits = replicate 5 (edit_event ''src/app.py'')"

subsection \<open>Reading the state document\<close>

text \<open>The \<open>milestones\<close> field of a state document, when it has one.\<close>

definition milestones_of :: "json \<Rightarrow> json option" where
  "milestones_of state = (case state of JObj st \<Rightarrow> map_of st ''milestones'' | _ \<Rightarrow> None)"

definition log_record :: "string \<Rightarrow> string \<Rightarrow> string \<Rightarrow> parse" where
  "log_record ts tool p = Parsed (JObj
     [(''timestamp'', JStr ts), (''time_local'', JStr ''09:30:00''), (''tool'', JStr tool),
      (''session_id'', JStr ''unknown''), (''file'', JStr p)])"

text \<open>Two readings of the clocks in a zone eight hours behind UTC: the evening of
  2026-11-03, when UTC is already at 2026-11-04, and the next morning.\<close>

definition evening_env :: env where
  "evening_env = env0\<lparr>utc_iso := ''2026-11-04T01:00:00.000000'', local_hms := ''17:00:00'',
     local_ymd := ''2026-11-03''\<rparr>"

definition morning_env :: env where
  "morning_env = env0\<lparr>utc_iso := ''2026-11-04T18:00:00.000000'', local_hms := ''10:00:00'',
     local_ymd := ''2026-11-04''\<rparr>"

definition evening_events :: "(env \<times> parse) list" where
  "evening_events =
     replicate 3
       (evening_env, Parsed (JObj (tool_event ''Edit'' [(''file_path'', JStr ''yesterday.py'')])))
     @ [(evening_env, Parsed (JObj (tool_event ''TaskUpdate''
          [(''taskId'', JStr ''7''), (''status'', JStr ''completed''),
           (''subject'', JStr ''Ship it'')])))]"

definition two_day_run :: "(env \<times> parse) list" where
  "two_day_run = evening_events
     @ [(morning_env, Parsed (JObj (tool_event ''Edit'' [(''file_path'', JStr ''today.py'')])))]"

text \<open>A locale whose encoding, as ASCII, does not have the letter U+00E9, and five
  edits of a file whose name has that letter.\<close>

definition ascii_env :: env where
  "ascii_env = env0\<lparr>encodable := (\<lambda>c. c \<noteq> CHR 0xE9)\<rparr>"

definition accent_run :: "(env \<times> parse) list" where
  "accent_run = replicate 5
     (ascii_env, Parsed (JObj (tool_event ''Edit''
        [(''file_path'', JStr (''caf'' @ CHR 0xE9 # ''.py''))])))"

definition roadmap :: "string \<Rightarrow> world" where
  "roadmap content = fresh\<lparr>claude_md := Some content\<rparr>"

definition login_item :: string where
  "login_item = ''- [ ] Fix login timeout bug''"

definition login_item_checked :: string where
  "login_item_checked = ''- [x] Fix login timeout bug''"

definition two_lines :: string where
  "two_lines = ''# Roadmap'' @ NL # login_item"

subsection \<open>Events, logs and states as the program and its host make them\<close>

text \<open>The host sends a dictionary whose \<open>tool_name\<close> is a string and whose
  \<open>tool_input\<close>, when present, is a dictionary; \<open>file_path\<close>, when present, is a
  string, and so is \<open>command\<close> when it is read (that is, when there is no
  \<open>file_path\<close>).\<close>

fun is_str :: "json \<Rightarrow> bool" where
  "is_str (JStr s) = True"
| "is_str v = False"

fun is_list :: "json \<Rightarrow> bool" where
  "is_list (JArr xs) = True"
| "is_list v = False"

definition wf_tool_input :: "json \<Rightarrow> bool" where
  "wf_tool_input v =
     (case v of
        JObj ti \<Rightarrow>
          (case map_of ti ''file_path'' of
             Some p \<Rightarrow> is_str p
           | None \<Rightarrow> (case map_of ti ''command'' of Some c \<Rightarrow> is_str c | None \<Rightarrow> True))
      | _ \<Rightarrow> False)"

definition wf_event :: "env \<times> parse \<Rightarrow> bool" where
  "wf_event ev =
     (case snd ev of
        Parsed (JObj d) \<Rightarrow>
          (case map_of d ''tool_name'' of Some t \<Rightarrow> is_str t | None \<Rightarrow> False)
            \<and> wf_tool_input (get_or d ''tool_input'' (JObj []))
      | _ \<Rightarrow> False)"

text \<open>The event names a meaningful tool.\<close>

definition meaningful_event :: "env \<times> parse \<Rightarrow> bool" where
  "meaningful_event ev =
     (case snd ev of
        Parsed (JObj d) \<Rightarrow> is_meaningful (get_or d ''tool_name'' (JStr [])) = Inr True
      | _ \<Rightarrow> False)"

text \<open>The event names a meaningful tool and is not stopped by the recursion guard.\<close>

definition counted :: "env \<times> parse \<Rightarrow> bool" where
  "counted ev =
     (case snd ev of
        Parsed (JObj d) \<Rightarrow>
          recursion_guard (get_or d ''tool_input'' (JObj [])) = Inr False
            \<and> is_meaningful (get_or d ''tool_name'' (JStr [])) = Inr True
      | _ \<Rightarrow> False)"

text \<open>A line that the scans read without an exception: not JSON at all, or a
  dictionary whose \<open>timestamp\<close> and \<open>file\<close>, when present, are strings.\<close>

definition good_line :: "parse \<Rightarrow> bool" where
  "good_line l =
     (case l of
        Unparseable \<Rightarrow> True
      | Parsed (JObj entry) \<Rightarrow>
          (case map_of entry ''timestamp'' of None \<Rightarrow> True | Some ts \<Rightarrow> is_str ts)
            \<and> (case map_of entry ''file'' of None \<Rightarrow> True | Some p \<Rightarrow> is_str p)
      | Parsed _ \<Rightarrow> False)"

definition good_log :: "world \<Rightarrow> bool" where
  "good_log w = list_all good_line (log_lines w)"

text \<open>A milestone that line 185 formats: a dictionary with \<open>time\<close> and \<open>description\<close>.\<close>

definition good_milestone :: "json \<Rightarrow> bool" where
  "good_milestone m =
     (case m of
        JObj kv \<Rightarrow> map_of kv ''time'' \<noteq> None \<and> map_of kv ''description'' \<noteq> None
      | _ \<Rightarrow> False)"

text \<open>The milestones of a state that lines 181 to 185 format: none, a false value, or
  a list whose last five entries are good.\<close>

definition good_milestones :: "json \<Rightarrow> bool" where
  "good_milestones ms =
     (if truthy ms
      then (case ms of JArr xs \<Rightarrow> list_all good_milestone (last_n 5 xs) | _ \<Rightarrow> False)
      else True)"

text \<open>A state document that the pipeline handles without an exception, with \<open>n\<close>
  actions counted: a dictionary whose \<open>action_count\<close> is the integer \<open>n\<close>, whose
  \<open>completed_tasks\<close> is a list and whose \<open>milestones\<close> are good. This holds of the state
  that the program makes when there is no state file, with \<open>n = 0\<close>, and of every
  state that the program saves from such a state.\<close>

definition good_state :: "int \<Rightarrow> json \<Rightarrow> bool" where
  "good_state n state =
     (case state of
        JObj st \<Rightarrow>
          map_of st ''action_count'' = Some (JInt n)
            \<and> (case map_of st ''completed_tasks'' of Some xs \<Rightarrow> is_list xs | None \<Rightarrow> False)
            \<and> good_milestones (get_or st ''milestones'' JNull)
      | _ \<Rightarrow> False)"

definition snapshot_counts :: "(int \<times> world) list \<Rightarrow> nat list" where
  "snapshot_counts rs = map (\<lambda>r. length (snapshots_written (snd r))) rs"

definition guarded_run :: "(env \<times> parse) list" where
  "guarded_run = edit_event ''.claude/notes.md'' # replicate 5 (edit_event ''src/app.py'')"

definition saved_counts :: "(int \<times> world) list \<Rightarrow> nat list" where
  "saved_counts rs = map (\<lambda>r. length (states_saved (snd r))) rs"

definition list_path_event :: "env \<times> parse" where
  "list_path_event =
     (env0, Parsed (JObj (tool_event ''Edit'' [(''file_path'', JArr [JStr ''src/app.py''])])))"

definition poisoned_run :: "(env \<times> parse) list" where
  "poisoned_run = list_path_event # replicate 4 (edit_event ''src/app.py'')"

definition four_actions :: json where
  "four_actions = JObj
     [(''action_count'', JInt 4), (''completed_tasks'', JArr []),
      (''session_start'', JStr ''08:00:00''), (''milestones'', JArr [])]"

definition number_line_log :: world where
  "number_line_log = fresh\<lparr>state_file := Some (Parsed four_actions),
     activity_file := Some
       [Parsed (JInt 42), log_record ''2026-11-04T08:30:00.000000Z'' ''Edit'' ''a.py'']\<rparr>"

definition garbage_line_log :: world where
  "garbage_line_log = fresh\<lparr>state_file := Some (Parsed four_actions),
     activity_file := Some
       [Unparseable, log_record ''2026-11-04T08:30:00.000000Z'' ''Edit'' ''a.py'']\<rparr>"

section \<open>Properties\<close>

subsection \<open>Truncation of the command\<close>




subsection \<open>Substrings\<close>

lemma startswith_iff: "startswith s p \<longleftrightarrow> (\<exists>b. s = p @ b)"
  by (induction s p rule: startswith.induct) auto

lemma str_in_iff: "str_in w s \<longleftrightarrow> (\<exists>a b. s = a @ w @ b)"
proof (induction s)
  case Nil
  then show ?case by simp
next
  case (Cons c cs)
  show ?case
  proof
    assume "str_in w (c # cs)"
    then consider "startswith (c # cs) w" | "str_in w cs" by auto
    then show "\<exists>a b. c # cs = a @ w @ b"
    proof cases
      case 1
      then obtain b where "c # cs = w @ b" by (auto simp: startswith_iff)
      then have "c # cs = [] @ w @ b" by simp
      then show ?thesis by blast
    next
      case 2
      with Cons obtain a b where "cs = a @ w @ b" by auto
      then have "c # cs = (c # a) @ w @ b" by simp
      then show ?thesis by blast
    qed
  next
    assume "\<exists>a b. c # cs = a @ w @ b"
    then obtain a b where ab: "c # cs = a @ w @ b" by auto
    show "str_in w (c # cs)"
    proof (cases a)
      case Nil
      with ab have "startswith (c # cs) w" by (auto simp: startswith_iff)
      then show ?thesis by simp
    next
      case (Cons x a')
      with ab have "cs = a' @ w @ b" by simp
      with Cons.IH have "str_in w cs" by blast
      then show ?thesis by simp
    qed
  qed
qed

subsection \<open>Exactly one acknowledgement, exit status 0\<close>

lemma printed_emit:
  "printed (emit x w) = printed w @ (case x of Print a \<Rightarrow> [a] | _ \<Rightarrow> [])"
  by (simp add: printed_def emit_def)

lemma printed_print: "printed (print a w) = printed w @ [a]"
  by (simp add: print_def printed_emit)

lemma printed_get_claude_dir: "printed (get_claude_dir w) = printed w"
  by (simp add: get_claude_dir_def printed_emit) (simp add: printed_def)

lemma printed_save_state: "printed (save_state st w) = printed w"
  by (simp add: save_state_def printed_emit) (simp add: printed_def)

lemma printed_append_activity: "printed (snd (append_activity e d w)) = printed w"
  by (simp add: append_activity_def append_line_def printed_emit split: sum.splits)
    (simp add: printed_def)

lemma printed_try_update_roadmap: "printed (try_update_roadmap s w) = printed w"
  by (simp add: try_update_roadmap_def Let_def printed_emit split: option.splits json.splits)
    (simp add: printed_def)

lemma printed_track_completion:
  "printed (snd (track_completion e tn ti st w)) = printed w"
  by (simp add: track_completion_def Let_def printed_try_update_roadmap
      split: sum.splits bool.splits json.splits)

lemma printed_update_live_progress:
  "printed (snd (update_live_progress e st w)) = printed w"
  by (simp add: update_live_progress_def write_progress_def printed_emit split: sum.splits)
    (simp add: printed_def)

lemma tidy_final_ack:
  "printed w1 = printed w \<Longrightarrow> tidy w (final_ack tn ti w1)"
  by (simp add: final_ack_def printed_print split: sum.splits bool.splits)

lemma tidy_progress_update:
  "printed w1 = printed w \<Longrightarrow> tidy w (progress_update e n st w1)"
  using printed_update_live_progress [of e st w1]
  by (auto simp: progress_update_def printed_print printed_save_state
      split: prod.splits sum.splits)

lemma tidy_count_and_finish:
  "printed w1 = printed w \<Longrightarrow> tidy w (count_and_finish e tn ti st w1)"
  by (simp add: count_and_finish_def tidy_final_ack tidy_progress_update printed_save_state
      split: sum.splits bool.splits prod.splits)

lemma tidy_pipeline: "tidy w (pipeline e d tn ti w)"
proof -
  let ?w0 = "get_claude_dir w"
  obtain r1 w1 where a: "append_activity e d ?w0 = (r1, w1)" by (cases "append_activity e d ?w0")
  have p1: "printed w1 = printed w"
    using printed_append_activity [of e d ?w0] a by (simp add: printed_get_claude_dir)
  obtain r2 w2 where t: "track_completion e tn ti (load_state e ?w0) w1 = (r2, w2)"
    by (cases "track_completion e tn ti (load_state e ?w0) w1")
  have p2: "printed w2 = printed w"
    using printed_track_completion [of e tn ti "load_state e ?w0" w1] t p1 by simp
  show ?thesis
    using a t p1 p2
    by (simp add: pipeline_def Let_def tidy_count_and_finish split: sum.splits)
qed

lemma tidy_main_try: "tidy w (main_try e stdin w)"
  by (simp add: main_try_def Let_def tidy_pipeline printed_print
      split: parse.splits json.splits sum.splits bool.splits)

lemma main_prints_once:
  "fst (main e stdin w) = 0 \<and> (\<exists>a. printed (snd (main e stdin w)) = printed w @ [a])"
proof -
  obtain c w' where m: "main_try e stdin w = (c, w')"
    by (cases "main_try e stdin w")
  with tidy_main_try [of w e stdin] have "tidy w (c, w')"
    by simp
  with m show ?thesis
    by (cases c) (auto simp: main_def printed_print)
qed

text \<open>
  C2. Whatever the clock, the standard input (a document that does not parse, or any
  JSON value) and the files are, one invocation ends with exit status 0 and has printed
  exactly one acknowledgement.
\<close>

theorem never_fail:
  "fst (invoke ev w) = 0 \<and> length (printed (snd (invoke ev w))) = 1"
  using main_prints_once [of "fst ev" "snd ev" "w\<lparr>journal := []\<rparr>"]
  by (auto simp: invoke_def printed_def)

theorem never_fail_witness:
  "fst (invoke (env0, Unparseable) fresh) = 0
     \<and> length (printed (snd (invoke (env0, Unparseable) fresh))) = 1"
  by (rule never_fail)

subsection \<open>The recursion guard\<close>

lemmas io_defs = emit_def print_def save_state_def get_claude_dir_def append_line_def

text \<open>
  C7. An event whose \<open>tool_input\<close> is a dictionary with a string under \<open>file_path\<close> that
  contains \<open>.claude/\<close> or \<open>.claude\<close> followed by a backslash: the invocation ends with
  status 0, its only effect is to print the acknowledgement \<open>{}\<close>, and every file (the
  log, the state, the snapshot, the checklist, even the directory) is as it was.
\<close>

theorem recursion_guard_ignores:
  assumes "map_of input_data ''tool_input'' = Some (JObj ti)"
    and "map_of ti ''file_path'' = Some (JStr p)"
    and "(\<exists>a b. p = a @ ''.claude/'' @ b) \<or> (\<exists>a b. p = a @ ''.claude'' @ [BACKSLASH] @ b)"
  shows "main e (Parsed (JObj input_data)) w = (0, w\<lparr>journal := journal w @ [Print AckEmpty]\<rparr>)"
proof -
  from assms(3) have "str_in ''.claude/'' p \<or> str_in (''.claude'' @ [BACKSLASH]) p"
    unfolding str_in_iff by simp
  then have "recursion_guard (JObj ti) = Inr True"
    using assms(2) by (auto simp: recursion_guard_def get_or_def Let_def split: bool.splits)
  with assms(1) show ?thesis
    by (simp add: main_def main_try_def get_or_def io_defs)
qed

theorem recursion_guard_ignores_witness:
  "main env0 (snd (edit_event ''/home/u/.claude/settings.json'')) fresh
     = (0, fresh\<lparr>journal := journal fresh @ [Print AckEmpty]\<rparr>)"
proof -
  have h: "(\<exists>a b. ''/home/u/.claude/settings.json'' = a @ ''.claude/'' @ b)
     \<or> (\<exists>a b. ''/home/u/.claude/settings.json'' = a @ ''.claude'' @ [BACKSLASH] @ b)"
    by (rule disjI1, rule exI [of _ "''/home/u/''"], rule exI [of _ "''settings.json''"]) simp
  from recursion_guard_ignores [of "tool_event ''Edit'' [(''file_path'', JStr ''/home/u/.claude/settings.json'')]"
      "[(''file_path'', JStr ''/home/u/.claude/settings.json'')]" "''/home/u/.claude/settings.json''"
      env0 fresh, OF _ _ h]
  show ?thesis
    by (simp add: edit_event_def tool_event_def)
qed

subsection \<open>The milestones are never changed\<close>

lemma milestones_of_load_state:
  "state_file w' = state_file w \<Longrightarrow>
     milestones_of (load_state e' w') = milestones_of (load_state e w)"
  by (simp add: load_state_def default_state_def milestones_of_def
      split: option.splits parse.splits)

lemma state_file_append_activity:
  "state_file (snd (append_activity e d w)) = state_file w"
  by (simp add: append_activity_def io_defs split: sum.splits)

lemma state_file_try_update_roadmap:
  "state_file (try_update_roadmap s w) = state_file w"
  by (simp add: try_update_roadmap_def Let_def io_defs split: option.splits json.splits)

lemma milestones_of_append_completed:
  "append_completed st task = Inr st' \<Longrightarrow> milestones_of st' = milestones_of st"
  by (auto simp: append_completed_def milestones_of_def update_conv'
      split: sum.splits json.splits)

lemma milestones_of_increment:
  "increment st = Inr (n, st') \<Longrightarrow> milestones_of st' = milestones_of st"
  by (auto simp: increment_def milestones_of_def update_conv'
      split: sum.splits json.splits)

lemma state_file_track_completion:
  "state_file (snd (track_completion e tn ti st w)) = state_file w"
  by (simp add: track_completion_def Let_def state_file_try_update_roadmap
      split: sum.splits bool.splits json.splits)

lemma milestones_of_track_completion:
  "track_completion e tn ti st w = (Inr st', w') \<Longrightarrow> milestones_of st' = milestones_of st"
  by (auto simp: track_completion_def Let_def milestones_of_append_completed
      split: sum.splits bool.splits json.splits)

lemma state_file_final_ack:
  "state_file (snd (final_ack tn ti w)) = state_file w"
  by (simp add: final_ack_def io_defs split: sum.splits bool.splits)

lemma state_file_update_live_progress:
  "state_file (snd (update_live_progress e st w)) = state_file w"
  by (simp add: update_live_progress_def write_progress_def io_defs split: sum.splits)

lemma state_file_progress_update:
  "state_file (snd (progress_update e n st w)) = state_file w
     \<or> state_file (snd (progress_update e n st w)) = Some (Parsed st)"
  using state_file_update_live_progress [of e st w]
  by (auto simp: progress_update_def io_defs split: prod.splits sum.splits)

lemma state_file_count_and_finish:
  "state_file (snd (count_and_finish e tn ti st w)) = state_file w
     \<or> (\<exists>st'. state_file (snd (count_and_finish e tn ti st w)) = Some (Parsed st')
           \<and> milestones_of st' = milestones_of st)"
proof (cases "is_meaningful tn")
  case (Inl x)
  then show ?thesis by (simp add: count_and_finish_def)
next
  case (Inr m)
  show ?thesis
  proof (cases m)
    case False
    with Inr show ?thesis
      by (simp add: count_and_finish_def state_file_final_ack) (simp add: io_defs)
  next
    case True
    show ?thesis
    proof (cases "increment st")
      case (Inl x)
      with Inr True show ?thesis by (simp add: count_and_finish_def)
    next
      case inc: (Inr p)
      obtain n st' where p: "p = (n, st')" by (cases p)
      have m: "milestones_of st' = milestones_of st"
        using inc p by (simp add: milestones_of_increment)
      show ?thesis
      proof (cases "n mod UPDATE_INTERVAL = 0")
        case True
        with Inr \<open>m\<close> inc p m state_file_progress_update [of e n st' w] show ?thesis
          by (auto simp: count_and_finish_def)
      next
        case False
        with Inr \<open>m\<close> inc p m show ?thesis
          by (simp add: count_and_finish_def state_file_final_ack) (simp add: io_defs)
      qed
    qed
  qed
qed

lemma state_file_pipeline:
  "state_file (snd (pipeline e d tn ti w)) = state_file w
     \<or> (\<exists>st'. state_file (snd (pipeline e d tn ti w)) = Some (Parsed st')
           \<and> milestones_of st' = milestones_of (load_state e w))"
proof -
  let ?w0 = "get_claude_dir w"
  have s0: "state_file ?w0 = state_file w" by (simp add: io_defs)
  obtain r1 w1 where a: "append_activity e d ?w0 = (r1, w1)"
    by (cases "append_activity e d ?w0")
  have s1: "state_file w1 = state_file w"
    using state_file_append_activity [of e d ?w0] a s0 by simp
  obtain r2 w2 where t: "track_completion e tn ti (load_state e ?w0) w1 = (r2, w2)"
    by (cases "track_completion e tn ti (load_state e ?w0) w1")
  have s2: "state_file w2 = state_file w"
    using state_file_track_completion [of e tn ti "load_state e ?w0" w1] t s1 by simp
  have l0: "milestones_of (load_state e ?w0) = milestones_of (load_state e w)"
    using s0 by (rule milestones_of_load_state)
  show ?thesis
  proof (cases r1)
    case (Inl x)
    with a s1 show ?thesis by (simp add: pipeline_def Let_def)
  next
    case r1: (Inr entry)
    show ?thesis
    proof (cases r2)
      case (Inl x)
      with a t r1 s2 show ?thesis by (simp add: pipeline_def Let_def)
    next
      case (Inr st2)
      with t have "milestones_of st2 = milestones_of (load_state e ?w0)"
        by (simp add: milestones_of_track_completion)
      with l0 have m2: "milestones_of st2 = milestones_of (load_state e w)" by simp
      from a t r1 Inr have "pipeline e d tn ti w = count_and_finish e tn ti st2 w2"
        by (simp add: pipeline_def Let_def)
      with state_file_count_and_finish [of e tn ti st2 w2] s2 m2 show ?thesis
        by auto
    qed
  qed
qed

lemma state_file_main:
  "state_file (snd (main e stdin w)) = state_file w
     \<or> (\<exists>st'. state_file (snd (main e stdin w)) = Some (Parsed st')
           \<and> milestones_of st' = milestones_of (load_state e w))"
proof -
  have t: "state_file (snd (main_try e stdin w)) = state_file w
     \<or> (\<exists>st'. state_file (snd (main_try e stdin w)) = Some (Parsed st')
           \<and> milestones_of st' = milestones_of (load_state e w))"
    using state_file_pipeline [of e _ _ _ w]
    by (simp add: main_try_def Let_def io_defs
        split: parse.splits json.splits sum.splits bool.splits)
  obtain c w' where m: "main_try e stdin w = (c, w')" by (cases "main_try e stdin w")
  have "state_file (snd (main e stdin w)) = state_file w'"
    using m by (cases c) (simp_all add: main_def io_defs)
  with t m show ?thesis by simp
qed

lemma milestones_kept_main:
  "milestones_of (load_state e' (snd (main e stdin w))) = milestones_of (load_state e' w)"
proof -
  from state_file_main [of e stdin w] show ?thesis
  proof
    assume "state_file (snd (main e stdin w)) = state_file w"
    then show ?thesis by (rule milestones_of_load_state)
  next
    assume "\<exists>st'. state_file (snd (main e stdin w)) = Some (Parsed st')
           \<and> milestones_of st' = milestones_of (load_state e w)"
    then obtain st' where "state_file (snd (main e stdin w)) = Some (Parsed st')"
      and "milestones_of st' = milestones_of (load_state e w)" by blast
    moreover have "milestones_of (load_state e w) = milestones_of (load_state e' w)"
      by (rule milestones_of_load_state) simp
    ultimately show ?thesis by (simp add: load_state_def)
  qed
qed

lemma snaps_emit:
  "snapshots_written (emit x w)
     = snapshots_written w @ (case x of SnapshotWrite s \<Rightarrow> [s] | _ \<Rightarrow> [])"
  by (simp add: snapshots_written_def emit_def)

lemma snaps_journal:
  "snapshots_written (w\<lparr>claude_dir := a\<rparr>) = snapshots_written w"
  "snapshots_written (w\<lparr>state_file := b\<rparr>) = snapshots_written w"
  "snapshots_written (w\<lparr>activity_file := c\<rparr>) = snapshots_written w"
  "snapshots_written (w\<lparr>progress_file := d\<rparr>) = snapshots_written w"
  "snapshots_written (w\<lparr>claude_md := f\<rparr>) = snapshots_written w"
  by (simp_all add: snapshots_written_def)

lemma snaps_append_activity:
  "snapshots_written (snd (append_activity e d w)) = snapshots_written w"
  by (simp add: append_activity_def append_line_def snaps_emit snaps_journal split: sum.splits)

lemma snaps_try_update_roadmap:
  "snapshots_written (try_update_roadmap s w) = snapshots_written w"
  by (simp add: try_update_roadmap_def Let_def snaps_emit snaps_journal
      split: option.splits json.splits)

lemma snaps_track_completion:
  "snapshots_written (snd (track_completion e tn ti st w)) = snapshots_written w"
  by (simp add: track_completion_def Let_def snaps_try_update_roadmap
      split: sum.splits bool.splits json.splits)

lemma snaps_save_state: "snapshots_written (save_state st w) = snapshots_written w"
  by (simp add: save_state_def snaps_emit snaps_journal)

lemma snaps_print: "snapshots_written (print a w) = snapshots_written w"
  by (simp add: print_def snaps_emit)

lemma snaps_final_ack:
  "snapshots_written (snd (final_ack tn ti w)) = snapshots_written w"
  by (simp add: final_ack_def snaps_print split: sum.splits bool.splits)

lemma derive_snapshot_no_milestones:
  "derive_snapshot e st w = Inr s \<Longrightarrow> milestones_of st = Some (JArr []) \<Longrightarrow>
     milestones_list s = []"
  by (auto simp: derive_snapshot_def milestones_of_def format_milestones_def get_or_def
      split: sum.splits prod.splits json.splits option.splits)

lemma snaps_update_live_progress:
  "snapshots_written (snd (update_live_progress e st w)) = snapshots_written w
     \<or> (\<exists>s. derive_snapshot e st w = Inr s
           \<and> snapshots_written (snd (update_live_progress e st w)) = snapshots_written w @ [s])"
  by (simp add: update_live_progress_def write_progress_def snaps_emit snaps_journal
      split: sum.splits)

lemma snaps_progress_update:
  "snapshots_written (snd (progress_update e n st w)) = snapshots_written w
     \<or> (\<exists>s. derive_snapshot e st w = Inr s
           \<and> snapshots_written (snd (progress_update e n st w)) = snapshots_written w @ [s])"
  using snaps_update_live_progress [of e st w]
  by (auto simp: progress_update_def snaps_print snaps_save_state split: prod.splits sum.splits)

lemma unmarked_count_and_finish:
  assumes "milestones_of st = Some (JArr [])"
    and "s \<in> set (snapshots_written (snd (count_and_finish e tn ti st w)))"
  shows "s \<in> set (snapshots_written w) \<or> milestones_list s = []"
proof (cases "is_meaningful tn")
  case (Inl x)
  with assms(2) show ?thesis by (simp add: count_and_finish_def)
next
  case (Inr m)
  show ?thesis
  proof (cases "m \<and> (\<exists>n st'. increment st = Inr (n, st') \<and> n mod UPDATE_INTERVAL = 0)")
    case False
    with Inr assms(2) show ?thesis
      by (auto simp: count_and_finish_def snaps_final_ack snaps_save_state
          split: sum.splits bool.splits prod.splits if_splits)
  next
    case True
    then obtain n st' where inc: "increment st = Inr (n, st')" and n: "n mod UPDATE_INTERVAL = 0"
      and m: m by auto
    have ms: "milestones_of st' = Some (JArr [])"
      using inc assms(1) by (simp add: milestones_of_increment)
    have "count_and_finish e tn ti st w = progress_update e n st' w"
      using Inr m inc n by (simp add: count_and_finish_def)
    with assms(2) snaps_progress_update [of e n st' w] ms show ?thesis
      by (auto dest: derive_snapshot_no_milestones)
  qed
qed

lemma unmarked_pipeline:
  assumes "milestones_of (load_state e w) = Some (JArr [])"
    and "s \<in> set (snapshots_written (snd (pipeline e d tn ti w)))"
  shows "s \<in> set (snapshots_written w) \<or> milestones_list s = []"
proof -
  let ?w0 = "get_claude_dir w"
  have s0: "state_file ?w0 = state_file w" by (simp add: io_defs)
  have j0: "snapshots_written ?w0 = snapshots_written w"
    by (simp add: get_claude_dir_def snaps_emit snaps_journal)
  obtain r1 w1 where a: "append_activity e d ?w0 = (r1, w1)"
    by (cases "append_activity e d ?w0")
  have j1: "snapshots_written w1 = snapshots_written w"
    using snaps_append_activity [of e d ?w0] a j0 by simp
  obtain r2 w2 where t: "track_completion e tn ti (load_state e ?w0) w1 = (r2, w2)"
    by (cases "track_completion e tn ti (load_state e ?w0) w1")
  have j2: "snapshots_written w2 = snapshots_written w"
    using snaps_track_completion [of e tn ti "load_state e ?w0" w1] t j1 by simp
  have l0: "milestones_of (load_state e ?w0) = Some (JArr [])"
    using milestones_of_load_state [OF s0, of e e] assms(1) by simp
  show ?thesis
  proof (cases r1)
    case (Inl x)
    with a j1 assms(2) show ?thesis by (simp add: pipeline_def Let_def)
  next
    case r1: (Inr entry)
    show ?thesis
    proof (cases r2)
      case (Inl x)
      with a t r1 j2 assms(2) show ?thesis by (simp add: pipeline_def Let_def)
    next
      case (Inr st2)
      with t l0 have m2: "milestones_of st2 = Some (JArr [])"
        by (simp add: milestones_of_track_completion)
      from a t r1 Inr have "pipeline e d tn ti w = count_and_finish e tn ti st2 w2"
        by (simp add: pipeline_def Let_def)
      with unmarked_count_and_finish [OF m2, of s e tn ti w2] assms(2) j2 show ?thesis
        by simp
    qed
  qed
qed

lemma unmarked_main:
  assumes "milestones_of (load_state e w) = Some (JArr [])"
    and "s \<in> set (snapshots_written (snd (main e stdin w)))"
  shows "s \<in> set (snapshots_written w) \<or> milestones_list s = []"
proof -
  obtain c w' where m: "main_try e stdin w = (c, w')" by (cases "main_try e stdin w")
  have "snapshots_written (snd (main e stdin w)) = snapshots_written w'"
    using m by (cases c) (simp_all add: main_def snaps_print)
  with assms(2) have s: "s \<in> set (snapshots_written (snd (main_try e stdin w)))"
    using m by simp
  show ?thesis
  proof (cases "\<exists>d tn ti. main_try e stdin w = pipeline e d tn ti w")
    case True
    with s assms(1) show ?thesis by (auto dest: unmarked_pipeline)
  next
    case False
    then have "snapshots_written (snd (main_try e stdin w)) = snapshots_written w"
      by (auto simp: main_try_def Let_def snaps_print
          split: parse.splits json.splits sum.splits bool.splits)
    with s show ?thesis by simp
  qed
qed

lemma unmarked_invoke:
  assumes "milestones_of (load_state e w) = Some (JArr [])"
    and "s \<in> set (snapshots_written (snd (invoke ev w)))"
  shows "milestones_list s = []"
proof -
  let ?w = "w\<lparr>journal := []\<rparr>"
  have "milestones_of (load_state (fst ev) ?w) = Some (JArr [])"
    using milestones_of_load_state [of ?w w "fst ev" e] assms(1) by simp
  from unmarked_main [OF this, of s "snd ev"] assms(2) show ?thesis
    by (simp add: invoke_def snapshots_written_def)
qed

lemma milestones_kept_invoke:
  "milestones_of (load_state e' (snd (invoke ev w))) = milestones_of (load_state e' w)"
  using milestones_kept_main [of e' "fst ev" "snd ev" "w\<lparr>journal := []\<rparr>"]
    milestones_of_load_state [of "w\<lparr>journal := []\<rparr>" w e' e']
  by (simp add: invoke_def)

lemma run_unmarked:
  "milestones_of (load_state e w) = Some (JArr []) \<Longrightarrow> r \<in> set (run w evs) \<Longrightarrow>
     milestones_of (load_state e (snd r)) = Some (JArr [])
       \<and> (\<forall>s\<in>set (snapshots_written (snd r)). milestones_list s = [])"
proof (induction evs arbitrary: w)
  case Nil
  then show ?case by simp
next
  case (Cons ev evs)
  have k: "milestones_of (load_state e (snd (invoke ev w))) = Some (JArr [])"
    using milestones_kept_invoke [of e ev w] Cons.prems(1) by simp
  from Cons.prems(2) consider "r = invoke ev w" | "r \<in> set (run (snd (invoke ev w)) evs)"
    by auto
  then show ?case
  proof cases
    case 1
    with k Cons.prems(1) show ?thesis by (auto dest: unmarked_invoke)
  next
    case 2
    with Cons.IH [OF k] show ?thesis by simp
  qed
qed

text \<open>
  C10. No invocation changes the milestones: whatever the event and the files are, the
  \<open>milestones\<close> field of the state document that the next invocation loads is the one
  that this invocation loaded. Hence, in every run that starts without a state file,
  the field stays the empty list after each invocation, and every snapshot that is
  written has an empty milestones section.
\<close>

theorem milestones_never_change:
  "milestones_of (load_state e (snd (invoke ev w))) = milestones_of (load_state e w)
     \<and> (state_file w = None \<longrightarrow>
          (\<forall>r\<in>set (run w evs).
             milestones_of (load_state e (snd r)) = Some (JArr [])
               \<and> (\<forall>s\<in>set (snapshots_written (snd r)). milestones_list s = [])))"
proof -
  have "milestones_of (load_state e w) = Some (JArr [])" if "state_file w = None"
    using that by (simp add: load_state_def default_state_def milestones_of_def)
  then show ?thesis
    using milestones_kept_invoke [of e ev w] run_unmarked [of e w _ evs] by blast
qed

theorem milestones_never_change_witness:
  "state_file fresh = None
     \<and> map (\<lambda>r. milestones_of (load_state env0 (snd r))) (run fresh five_edits)
         = replicate 5 (Some (JArr []))
     \<and> map (\<lambda>r. map milestones_list (snapshots_written (snd r))) (run fresh five_edits)
         = [[], [], [], [], [[]]]"
proof -
  have f: "state_file fresh = None" by (simp add: fresh_def)
  have a: "\<forall>r\<in>set (run fresh five_edits).
             milestones_of (load_state env0 (snd r)) = Some (JArr [])
               \<and> (\<forall>s\<in>set (snapshots_written (snd r)). milestones_list s = [])"
    using milestones_never_change [of env0 "edit_event ''src/app.py''" fresh five_edits] f
    by blast
  have k: "map (\<lambda>r. milestones_of (load_state env0 (snd r))) (run fresh five_edits)
         = replicate 5 (Some (JArr []))"
    by code_simp
  have n: "map (\<lambda>r. map milestones_list (snapshots_written (snd r))) (run fresh five_edits)
         = [[], [], [], [], [[]]]"
    by code_simp
  from a f k n show ?thesis
    by simp
qed

subsection \<open>Records of other days\<close>

text \<open>The scans keep the records whose \<open>timestamp\<close> begins with today's local date.\<close>

lemma scan_skip:
  assumes "\<And>acc. body l acc = Inr acc"
  shows "scan body (xs @ l # ys) acc = scan body (xs @ ys) acc"
  by (induction xs arbitrary: acc) (simp_all add: assms split: sum.splits)

lemma is_today_other_day:
  assumes "map_of r ''timestamp'' = Some (JStr ts)"
    and "\<forall>rest. ts \<noteq> local_ymd e @ rest"
  shows "is_today e (JObj r) = Inr False"
  using assms by (simp add: is_today_def get_or_def startswith_iff)

text \<open>A record that the date filter skips, one whose \<open>timestamp\<close> is a string that does
  not begin with today's local date, contributes nothing: with the record or without
  it, the scans and the snapshot are the same.\<close>

lemma skipped_record_contributes_nothing:
  assumes "activity_file w = Some (earlier @ Parsed (JObj r) # later)"
    and "map_of r ''timestamp'' = Some (JStr ts)"
    and "\<forall>rest. ts \<noteq> local_ymd e @ rest"
  shows "count_activity e w = count_activity e (w\<lparr>activity_file := Some (earlier @ later)\<rparr>)
     \<and> extract_completed_tasks e w
         = extract_completed_tasks e (w\<lparr>activity_file := Some (earlier @ later)\<rparr>)
     \<and> derive_snapshot e state w
         = derive_snapshot e state (w\<lparr>activity_file := Some (earlier @ later)\<rparr>)"
proof -
  let ?w = "w\<lparr>activity_file := Some (earlier @ later)\<rparr>"
  have t: "is_today e (JObj r) = Inr False"
    using assms(2,3) by (rule is_today_other_day)
  have c: "count_activity e w = count_activity e ?w"
    using assms(1) t by (simp add: count_activity_def scan_skip count_line_def)
  have x: "extract_completed_tasks e w = extract_completed_tasks e ?w"
    using assms(1) t by (simp add: extract_completed_tasks_def scan_skip completed_line_def)
  have "derive_snapshot e state w = derive_snapshot e state ?w"
    unfolding derive_snapshot_def c x ..
  with c x show ?thesis
    by simp
qed

text \<open>
  C5. The filter compares two clocks: \<open>append_activity\<close> stamps a record with the UTC
  date (line 61), the scans take today from the local date (lines 97 and 124). In a
  zone eight hours behind UTC, three edits and a completed task of the evening of
  2026-11-03 (local time 17:00) are stamped 2026-11-04. On the local day 2026-11-04
  the scan counts all four records of the day before, and the snapshot that the first
  edit of that day brings about shows 4 edits, the task of the evening and its file.
\<close>

theorem prior_local_day_counted:
  "local_ymd evening_env = ''2026-11-03'' \<and> local_ymd morning_env = ''2026-11-04''
     \<and> count_activity morning_env (snd (run fresh evening_events ! 3))
         = Inr (no_counts\<lparr>edits := 3, tasks := 1\<rparr>, [''yesterday.py''])
     \<and> extract_completed_tasks morning_env (snd (run fresh evening_events ! 3))
         = Inr [(JStr ''7'', JStr ''17:00:00'')]
     \<and> map table (snapshots_written (snd (run fresh two_day_run ! 4)))
         = [no_counts\<lparr>edits := 4, tasks := 1\<rparr>]
     \<and> map files_list (snapshots_written (snd (run fresh two_day_run ! 4)))
         = [[Lit (''- today.py'' @ NL # ''- yesterday.py'')]]
     \<and> map tasks_list (snapshots_written (snd (run fresh two_day_run ! 4)))
         = [[Lit (NL # ''## Completed Tasks'' @ [NL]),
             Lit ''- Task #'', Val (JStr ''7''), Lit '' at '', Val (JStr ''17:00:00''),
             Lit [NL]]]"
  by code_simp

subsection \<open>Lines and words\<close>

lemma split_from_not_empty: "split_from cur s \<noteq> []"
  by (induction s arbitrary: cur) simp_all

lemma join_split_from: "join_nl (split_from cur s) = cur @ s"
proof (induction s arbitrary: cur)
  case Nil
  then show ?case by simp
next
  case (Cons c cs)
  show ?case
  proof (cases "c = NL")
    case True
    obtain l ls where "split_from [] cs = l # ls"
      using split_from_not_empty [of "[]" cs] by (cases "split_from [] cs") auto
    with Cons [of "[]"] True show ?thesis by simp
  next
    case False
    with Cons [of "cur @ [c]"] show ?thesis by simp
  qed
qed

lemma join_split_nl: "join_nl (split_nl s) = s"
  by (simp add: split_nl_def join_split_from)

lemma split_from_lines:
  "NL \<notin> set cur \<Longrightarrow> l \<in> set (split_from cur s) \<Longrightarrow> NL \<notin> set l"
proof (induction s arbitrary: cur)
  case Nil
  then show ?case by simp
next
  case (Cons c cs)
  show ?case
  proof (cases "c = NL")
    case True
    with Cons.prems(2) have "l = cur \<or> l \<in> set (split_from [] cs)" by simp
    then show ?thesis
      using Cons.prems(1) Cons.IH [of "[]"] by auto
  next
    case False
    with Cons.prems(2) have "l \<in> set (split_from (cur @ [c]) cs)" by simp
    moreover have "NL \<notin> set (cur @ [c])" using False Cons.prems(1) by auto
    ultimately show ?thesis by (rule Cons.IH [rotated])
  qed
qed

lemma split_nl_lines: "l \<in> set (split_nl s) \<Longrightarrow> NL \<notin> set l"
  using split_from_lines [of "[]" l s] by (simp add: split_nl_def)

lemma split_from_append:
  "NL \<notin> set l \<Longrightarrow> split_from cur (l @ s) = split_from (cur @ l) s"
  by (induction l arbitrary: cur) auto

lemma split_from_join:
  "\<forall>l\<in>set (x # xs). NL \<notin> set l \<Longrightarrow> split_from cur (join_nl (x # xs)) = (cur @ x) # xs"
proof (induction xs arbitrary: x cur)
  case Nil
  then show ?case
    using split_from_append [of x cur "[]"] by simp
next
  case (Cons y ys)
  then have "split_from [] (join_nl (y # ys)) = y # ys"
    by simp
  with Cons.prems show ?case
    using split_from_append [of x cur "NL # join_nl (y # ys)"] by simp
qed

lemma split_join_nl:
  "ls \<noteq> [] \<Longrightarrow> \<forall>l\<in>set ls. NL \<notin> set l \<Longrightarrow> split_nl (join_nl ls) = ls"
  using split_from_join [of "hd ls" "tl ls" "[]"] by (cases ls) (simp_all add: split_nl_def)

lemma split_nl_not_empty: "split_nl s \<noteq> []"
  by (simp add: split_nl_def split_from_not_empty)

lemma is_space_lower_char: "is_space (lower_char c) = is_space c"
  by (auto simp: is_space_def lower_char_def Let_def)

lemma words_from_lower:
  "words_from (py_lower cur) (py_lower s) = map py_lower (words_from cur s)"
proof (induction s arbitrary: cur)
  case Nil
  then show ?case by (simp add: py_lower_def)
next
  case (Cons c cs)
  have e: "py_lower [] = []" and a: "py_lower (cur @ [c]) = py_lower cur @ [lower_char c]"
    and n: "(py_lower cur = []) = (cur = [])" and s: "py_lower (c # cs) = lower_char c # py_lower cs"
    by (simp_all add: py_lower_def)
  show ?case
    using Cons [of "[]"] Cons [of "cur @ [c]"]
    by (simp add: s is_space_lower_char n e a)
qed

lemma py_split_lower: "py_split (py_lower s) = map py_lower (py_split s)"
  using words_from_lower [of "[]" s] by (simp add: py_split_def py_lower_def)

lemma words_from_spaces:
  "list_all is_space ws \<Longrightarrow> words_from cur ws = (if cur = [] then [] else [cur])"
  by (induction ws arbitrary: cur) simp_all

lemma words_from_trailing:
  "list_all is_space ws \<Longrightarrow> words_from cur (t @ ws) = words_from cur t"
  by (induction t arbitrary: cur) (simp_all add: words_from_spaces)

lemma words_from_leading: "words_from [] (dropWhile is_space s) = words_from [] s"
  by (induction s) simp_all

lemma py_split_strip: "py_split (py_strip s) = py_split s"
proof -
  let ?t = "dropWhile is_space s"
  have "?t = rev (dropWhile is_space (rev ?t)) @ rev (takeWhile is_space (rev ?t))"
    by (metis rev_append rev_rev_ident takeWhile_dropWhile_id)
  moreover have "list_all is_space (rev (takeWhile is_space (rev ?t)))"
    by (simp add: list_all_iff) (metis set_takeWhileD)
  ultimately have "words_from [] ?t = words_from [] (rev (dropWhile is_space (rev ?t)))"
    using words_from_trailing by metis
  then show ?thesis
    by (simp add: py_split_def py_strip_def words_from_leading)
qed

lemma keywords_of_item:
  "py_split (py_lower (py_strip g2)) = map py_lower (py_split g2)"
  by (simp add: py_split_lower py_split_strip)

subsection \<open>The checklist\<close>

lemma not_space_marks:
  "\<not> is_space (CHR ''-'')" "\<not> is_space (CHR ''*'')" "\<not> is_space (CHR ''['')"
  "\<not> is_space (CHR '']'')"
  by (simp_all add: is_space_def)

lemma dropWhile_spaces:
  "list_all is_space ws \<Longrightarrow> \<not> is_space c \<Longrightarrow> dropWhile is_space (ws @ c # r) = c # r"
  by (induction ws) simp_all

lemma takeWhile_spaces:
  "list_all is_space ws \<Longrightarrow> \<not> is_space c \<Longrightarrow> takeWhile is_space (ws @ c # r) = ws"
  by (induction ws) simp_all

text \<open>The lines that the pattern of line 230 matches, and its two groups.\<close>

lemma match_unchecked_form:
  assumes "list_all is_space ws1" "list_all is_space ws2" "list_all is_space ws3"
    and "m = CHR ''-'' \<or> m = CHR ''*''" and "text \<noteq> []"
  shows "match_unchecked (ws1 @ m # ws2 @ CHR ''['' # ws3 @ CHR '']'' # text)
     = Some (ws1 @ m # ws2, text)"
proof -
  have m: "\<not> is_space m" using assms(4) not_space_marks by auto
  show ?thesis
    using assms m
    by (auto simp: match_unchecked_def dropWhile_spaces takeWhile_spaces not_space_marks)
qed

lemma match_unchecked_sound:
  assumes "match_unchecked line = Some (g1, g2)"
  shows "\<exists>ws1 m ws2 ws3. line = ws1 @ m # ws2 @ CHR ''['' # ws3 @ CHR '']'' # g2
     \<and> g1 = ws1 @ m # ws2 \<and> list_all is_space ws1 \<and> list_all is_space ws2
     \<and> list_all is_space ws3 \<and> (m = CHR ''-'' \<or> m = CHR ''*'') \<and> g2 \<noteq> []"
proof -
  let ?ws1 = "takeWhile is_space line"
  obtain m r2 where r1: "dropWhile is_space line = m # r2"
    using assms by (auto simp: match_unchecked_def split: list.splits)
  let ?ws2 = "takeWhile is_space r2"
  have mk: "m = CHR ''-'' \<or> m = CHR ''*''"
    using assms r1 by (auto simp: match_unchecked_def split: list.splits if_splits)
  obtain b r4 where r3: "dropWhile is_space r2 = b # r4"
    using assms r1 mk by (auto simp: match_unchecked_def split: list.splits if_splits)
  have b: "b = CHR ''[''"
    using assms r1 mk r3 by (auto simp: match_unchecked_def split: list.splits if_splits)
  let ?ws3 = "takeWhile is_space r4"
  obtain d rest where r5: "dropWhile is_space r4 = d # rest"
    using assms r1 mk r3 b by (auto simp: match_unchecked_def split: list.splits if_splits)
  have d: "d = CHR '']''" and g2: "g2 = rest" "rest \<noteq> []" and g1: "g1 = ?ws1 @ m # ?ws2"
    using assms r1 mk r3 b r5 by (auto simp: match_unchecked_def split: list.splits if_splits)
  have "line = ?ws1 @ dropWhile is_space line" by simp
  also have "\<dots> = ?ws1 @ m # (?ws2 @ dropWhile is_space r2)" using r1 by simp
  also have "\<dots> = ?ws1 @ m # ?ws2 @ CHR ''['' # (?ws3 @ dropWhile is_space r4)"
    using r3 b by simp
  finally have "line = ?ws1 @ m # ?ws2 @ CHR ''['' # ?ws3 @ CHR '']'' # g2"
    using r5 d g2 by simp
  moreover have "list_all is_space ?ws1" "list_all is_space ?ws2" "list_all is_space ?ws3"
    by (auto simp: list_all_iff dest: set_takeWhileD)
  ultimately show ?thesis
    using g1 mk g2 by blast
qed

lemma check_line_form:
  assumes "list_all is_space ws1" "list_all is_space ws2" "list_all is_space ws3"
    and "m = CHR ''-'' \<or> m = CHR ''*''" and "text \<noteq> []"
  shows "check_line (py_lower subject) (ws1 @ m # ws2 @ CHR ''['' # ws3 @ CHR '']'' # text)
     = (if \<exists>word\<in>set (py_split text). 3 < length word \<and> str_in (py_lower word) (py_lower subject)
        then (ws1 @ m # ws2 @ ''[x]'' @ text, True)
        else (ws1 @ m # ws2 @ CHR ''['' # ws3 @ CHR '']'' # text, False))"
proof -
  have l: "length (py_lower v) = length v" for v by (simp add: py_lower_def)
  have "list_ex (\<lambda>v. str_in v (py_lower subject))
          (filter (\<lambda>v. 3 < length v) (map py_lower (py_split text)))
      = (\<exists>word\<in>set (py_split text). 3 < length word \<and> str_in (py_lower word) (py_lower subject))"
    by (auto simp: list_ex_iff l)
  moreover have "filter (\<lambda>v. 3 < length v) (map py_lower (py_split text)) \<noteq> []"
    if "list_ex (\<lambda>v. str_in v (py_lower subject))
          (filter (\<lambda>v. 3 < length v) (map py_lower (py_split text)))"
    using that by (auto simp: list_ex_iff filter_empty_conv)
  ultimately show ?thesis
    using match_unchecked_form [OF assms]
    by (auto simp: check_line_def keywords_of_item Let_def)
qed

lemma check_line_unset: "\<not> snd (check_line sl line) \<Longrightarrow> fst (check_line sl line) = line"
  by (auto simp: check_line_def Let_def split: option.splits if_splits)

lemma check_line_no_newline:
  assumes "NL \<notin> set line"
  shows "NL \<notin> set (fst (check_line sl line))"
proof (cases "match_unchecked line")
  case None
  with assms show ?thesis by (simp add: check_line_def)
next
  case (Some g)
  obtain g1 g2 where g: "g = (g1, g2)" by (cases g)
  from match_unchecked_sound [of line g1 g2] Some g assms
  have "NL \<notin> set g1 \<and> NL \<notin> set g2" by auto
  moreover have "NL \<notin> set ''[x]''" by (simp add: NL_def)
  ultimately show ?thesis
    using Some g assms by (auto simp: check_line_def Let_def)
qed

text \<open>The checklist after the reconciler ran, written or not: every line of the old
  one, passed through \<open>check_line\<close>.\<close>

lemma roadmap_after:
  assumes "claude_md w = Some content"
  shows "claude_md (try_update_roadmap (JStr subject) w)
     = Some (join_nl (map (\<lambda>l. fst (check_line (py_lower subject) l)) (split_nl content)))"
proof (cases "list_ex snd (map (check_line (py_lower subject)) (split_nl content))")
  case True
  with assms show ?thesis
    by (simp add: try_update_roadmap_def Let_def io_defs comp_def)
next
  case False
  then have "map (\<lambda>l. fst (check_line (py_lower subject) l)) (split_nl content) = split_nl content"
    by (auto simp: list_ex_iff check_line_unset intro: map_idI)
  with False assms show ?thesis
    by (simp add: try_update_roadmap_def Let_def join_split_nl)
qed

lemma roadmap_lines_after:
  assumes "claude_md w = Some content"
  shows "\<exists>content'. claude_md (try_update_roadmap (JStr subject) w) = Some content'
     \<and> split_nl content' = map (\<lambda>l. fst (check_line (py_lower subject) l)) (split_nl content)"
proof -
  let ?ls = "map (\<lambda>l. fst (check_line (py_lower subject) l)) (split_nl content)"
  have "?ls \<noteq> []" by (simp add: split_nl_not_empty)
  moreover have "\<forall>l\<in>set ?ls. NL \<notin> set l"
    using split_nl_lines check_line_no_newline by auto
  ultimately have "split_nl (join_nl ?ls) = ?ls" by (rule split_join_nl)
  with roadmap_after [OF assms, of subject] show ?thesis by simp
qed

text \<open>
  C4. Let line \<open>i\<close> of \<open>CLAUDE.md\<close> be a list marker \<open>-\<close> or \<open>*\<close> (whitespace before
  and after it allowed), a pair of brackets with nothing but whitespace between them,
  and a text that is not empty. After the reconciler ran for a completed task with a
  string subject, the document has as many lines as before, and line \<open>i\<close> is the marker,
  \<open>[x]\<close> and the text if some word of the text, longer than 3 characters, is in lower
  case a substring of the subject in lower case; otherwise line \<open>i\<close> is as it was. In
  particular \<open>- [ ] Fix login timeout bug\<close> becomes \<open>- [x] Fix login timeout bug\<close> for
  the subject \<open>login timeout issue resolved\<close> and stays for \<open>unrelated refactor\<close>.
\<close>

theorem checklist_reconciled:
  assumes "claude_md w = Some content"
    and "i < length (split_nl content)"
    and "split_nl content ! i = ws1 @ m # ws2 @ CHR ''['' # ws3 @ CHR '']'' # text"
    and "list_all is_space ws1" "list_all is_space ws2" "list_all is_space ws3"
    and "m = CHR ''-'' \<or> m = CHR ''*''" and "text \<noteq> []"
  shows "(\<exists>content'. claude_md (try_update_roadmap (JStr subject) w) = Some content'
       \<and> length (split_nl content') = length (split_nl content)
       \<and> split_nl content' ! i =
          (if \<exists>word\<in>set (py_split text).
                3 < length word \<and> str_in (py_lower word) (py_lower subject)
           then ws1 @ m # ws2 @ ''[x]'' @ text
           else split_nl content ! i))
     \<and> claude_md (try_update_roadmap (JStr ''login timeout issue resolved'')
          (roadmap login_item)) = Some login_item_checked
     \<and> try_update_roadmap (JStr ''unrelated refactor'') (roadmap login_item)
          = roadmap login_item"
proof -
  from roadmap_lines_after [OF assms(1), of subject] obtain content' where
    c: "claude_md (try_update_roadmap (JStr subject) w) = Some content'"
    and l: "split_nl content' = map (\<lambda>l. fst (check_line (py_lower subject) l)) (split_nl content)"
    by blast
  have "split_nl content' ! i = fst (check_line (py_lower subject) (split_nl content ! i))"
    using l assms(2) by simp
  also have "\<dots> = (if \<exists>word\<in>set (py_split text).
                3 < length word \<and> str_in (py_lower word) (py_lower subject)
           then ws1 @ m # ws2 @ ''[x]'' @ text
           else split_nl content ! i)"
    unfolding assms(3)
    by (simp only: check_line_form [OF assms(4-8)] if_distrib [of fst] fst_conv)
  finally have general: "\<exists>content'. claude_md (try_update_roadmap (JStr subject) w) = Some content'
       \<and> length (split_nl content') = length (split_nl content)
       \<and> split_nl content' ! i =
          (if \<exists>word\<in>set (py_split text).
                3 < length word \<and> str_in (py_lower word) (py_lower subject)
           then ws1 @ m # ws2 @ ''[x]'' @ text
           else split_nl content ! i)"
    using c l by simp
  have login: "claude_md (try_update_roadmap (JStr ''login timeout issue resolved'')
          (roadmap login_item)) = Some login_item_checked"
    by code_simp
  have "list_ex snd (map (check_line (py_lower ''unrelated refactor'')) (split_nl login_item))
     = False"
    by code_simp
  then have unrelated: "try_update_roadmap (JStr ''unrelated refactor'') (roadmap login_item)
          = roadmap login_item"
    by (simp add: try_update_roadmap_def roadmap_def Let_def)
  from general login unrelated show ?thesis
    by blast
qed

theorem checklist_reconciled_witness:
  "\<exists>content'. claude_md (try_update_roadmap (JStr ''Login page'') (roadmap two_lines))
       = Some content'
     \<and> length (split_nl content') = 2
     \<and> split_nl content' ! 1 = login_item_checked"
proof -
  have a: "claude_md (roadmap two_lines) = Some two_lines"
    by (simp add: roadmap_def)
  have n: "length (split_nl two_lines) = 2"
    by code_simp
  then have b: "1 < length (split_nl two_lines)"
    by simp
  have c: "split_nl two_lines ! 1
     = [] @ CHR ''-'' # '' '' @ CHR ''['' # '' '' @ CHR '']'' # '' Fix login timeout bug''"
    by code_simp
  have s: "list_all is_space []" "list_all is_space '' ''"
    by (simp_all add: is_space_def)
  have m: "CHR ''-'' = CHR ''-'' \<or> CHR ''-'' = CHR ''*''"
    by simp
  have t: "'' Fix login timeout bug'' \<noteq> []"
    by simp
  have w: "\<exists>word\<in>set (py_split '' Fix login timeout bug'').
     3 < length word \<and> str_in (py_lower word) (py_lower ''Login page'')"
    by code_simp
  from checklist_reconciled [OF a b c s(1) s(2) s(2) m t, of "''Login page''"] n w
  show ?thesis
    by (simp add: login_item_checked_def)
qed

text \<open>
  C9. A numbered line is not an unchecked item for the program: the pattern of line 230
  asks for the marker \<open>-\<close> or \<open>*\<close>, and the numbered pattern of \<open>ROADMAP_PATTERNS\<close> is
  never applied. The line \<open>1. [ ] task\<close> is not matched and the checklist stays as it
  is for the subject \<open>finish task\<close>, which checks \<open>- [ ] task\<close>.
\<close>

theorem numbered_item_not_recognized:
  "match_unchecked ''1. [ ] task'' = None
     \<and> try_update_roadmap (JStr ''finish task'') (roadmap ''1. [ ] task'')
         = roadmap ''1. [ ] task''
     \<and> claude_md (try_update_roadmap (JStr ''finish task'') (roadmap ''- [ ] task''))
         = Some ''- [x] task''"
proof -
  have a: "match_unchecked ''1. [ ] task'' = None"
    by code_simp
  have "list_ex snd (map (check_line (py_lower ''finish task'')) (split_nl ''1. [ ] task''))
     = False"
    by code_simp
  then have b: "try_update_roadmap (JStr ''finish task'') (roadmap ''1. [ ] task'')
         = roadmap ''1. [ ] task''"
    by (simp add: try_update_roadmap_def roadmap_def Let_def)
  have c: "claude_md (try_update_roadmap (JStr ''finish task'') (roadmap ''- [ ] task''))
         = Some ''- [x] task''"
    by code_simp
  from a b c show ?thesis
    by simp
qed

subsection \<open>The snapshot trigger\<close>

lemma is_strE:
  assumes "is_str v"
  obtains s where "v = JStr s"
  using assms by (cases v) simp_all

lemma is_listE:
  assumes "is_list v"
  obtains xs where "v = JArr xs"
  using assms by (cases v) simp_all

lemma wf_tool_inputE:
  assumes "wf_tool_input v"
  obtains ti where "v = JObj ti"
    and "(\<exists>p. map_of ti ''file_path'' = Some (JStr p))
      \<or> (map_of ti ''file_path'' = None \<and> (\<exists>c. map_of ti ''command'' = Some (JStr c)))
      \<or> (map_of ti ''file_path'' = None \<and> map_of ti ''command'' = None)"
proof -
  from assms obtain ti where ti: "v = JObj ti"
    by (cases v) (simp_all add: wf_tool_input_def)
  with assms have "(case map_of ti ''file_path'' of
             Some p \<Rightarrow> is_str p
           | None \<Rightarrow> (case map_of ti ''command'' of Some c \<Rightarrow> is_str c | None \<Rightarrow> True))"
    by (simp add: wf_tool_input_def)
  then have "(\<exists>p. map_of ti ''file_path'' = Some (JStr p))
      \<or> (map_of ti ''file_path'' = None \<and> (\<exists>c. map_of ti ''command'' = Some (JStr c)))
      \<or> (map_of ti ''file_path'' = None \<and> map_of ti ''command'' = None)"
    by (auto split: option.splits elim: is_strE)
  with ti that show ?thesis by blast
qed

lemma good_lineE:
  assumes "good_line (Parsed v)"
  obtains entry where "v = JObj entry"
    and "map_of entry ''timestamp'' = None \<or> (\<exists>ts. map_of entry ''timestamp'' = Some (JStr ts))"
    and "map_of entry ''file'' = None \<or> (\<exists>p. map_of entry ''file'' = Some (JStr p))"
proof -
  from assms obtain entry where en: "v = JObj entry"
    by (cases v) (simp_all add: good_line_def)
  with assms have "map_of entry ''timestamp'' = None \<or> (\<exists>ts. map_of entry ''timestamp'' = Some (JStr ts))"
    and "map_of entry ''file'' = None \<or> (\<exists>p. map_of entry ''file'' = Some (JStr p))"
    by (auto simp: good_line_def split: option.splits elim: is_strE)
  with en that show ?thesis by blast
qed

lemma scan_total:
  assumes "\<And>l acc. l \<in> set ls \<Longrightarrow> \<exists>acc'. body l acc = Inr acc'"
  shows "\<exists>r. scan body ls acc = Inr r"
  using assms
proof (induction ls arbitrary: acc)
  case Nil
  then show ?case by simp
next
  case (Cons l ls)
  from Cons.prems [of l acc] obtain acc' where "body l acc = Inr acc'" by auto
  moreover from Cons.IH [of acc'] Cons.prems obtain r where "scan body ls acc' = Inr r"
    by auto
  ultimately show ?case by simp
qed

lemma good_line_is_today:
  assumes "good_line (Parsed v)"
  shows "\<exists>b. is_today e v = Inr b"
  using assms by (rule good_lineE) (auto simp: is_today_def get_or_def)

lemma good_line_count:
  assumes "good_line l"
  shows "\<exists>acc'. count_line e l acc = Inr acc'"
proof (cases l)
  case Unparseable
  then show ?thesis by (simp add: count_line_def)
next
  case (Parsed v)
  with assms obtain b where b: "is_today e v = Inr b"
    using good_line_is_today by blast
  from assms Parsed obtain entry where v: "v = JObj entry"
    and "map_of entry ''file'' = None \<or> (\<exists>p. map_of entry ''file'' = Some (JStr p))"
    by (auto elim: good_lineE)
  with Parsed b show ?thesis
    by (cases b) (auto simp: count_line_def touch_def Let_def)
qed

lemma good_line_completed:
  assumes "good_line l"
  shows "\<exists>acc'. completed_line e l acc = Inr acc'"
proof (cases l)
  case Unparseable
  then show ?thesis by (simp add: completed_line_def)
next
  case (Parsed v)
  with assms obtain b where b: "is_today e v = Inr b"
    using good_line_is_today by blast
  from assms Parsed obtain entry where v: "v = JObj entry"
    by (auto elim: good_lineE)
  with Parsed b show ?thesis
    by (cases b) (auto simp: completed_line_def)
qed

lemma good_log_count_activity:
  assumes "good_log w"
  shows "\<exists>r. count_activity e w = Inr r"
proof (cases "activity_file w")
  case None
  then show ?thesis by (simp add: count_activity_def)
next
  case (Some ls)
  with assms have "\<forall>l\<in>set ls. good_line l"
    by (simp add: good_log_def log_lines_def list_all_iff)
  then have "\<And>l acc. l \<in> set ls \<Longrightarrow> \<exists>acc'. count_line e l acc = Inr acc'"
    using good_line_count by blast
  then have "\<exists>r. scan (count_line e) ls (no_counts, []) = Inr r"
    by (rule scan_total)
  with Some show ?thesis by (simp add: count_activity_def)
qed

lemma good_log_extract:
  assumes "good_log w"
  shows "\<exists>r. extract_completed_tasks e w = Inr r"
proof (cases "activity_file w")
  case None
  then show ?thesis by (simp add: extract_completed_tasks_def)
next
  case (Some ls)
  with assms have "\<forall>l\<in>set ls. good_line l"
    by (simp add: good_log_def log_lines_def list_all_iff)
  then have "\<And>l acc. l \<in> set ls \<Longrightarrow> \<exists>acc'. completed_line e l acc = Inr acc'"
    using good_line_completed by blast
  then have "\<exists>r. scan (completed_line e) ls [] = Inr r"
    by (rule scan_total)
  with Some show ?thesis by (simp add: extract_completed_tasks_def)
qed

lemma good_stateE:
  assumes "good_state n st"
  obtains kv xs where "st = JObj kv" "map_of kv ''action_count'' = Some (JInt n)"
    "map_of kv ''completed_tasks'' = Some (JArr xs)"
    "good_milestones (get_or kv ''milestones'' JNull)"
proof -
  from assms obtain kv where kv: "st = JObj kv"
    by (cases st) (simp_all add: good_state_def)
  with assms obtain v where v: "map_of kv ''completed_tasks'' = Some v" and "is_list v"
    by (cases "map_of kv ''completed_tasks''") (simp_all add: good_state_def)
  then obtain xs where "v = JArr xs"
    by (auto elim: is_listE)
  with assms kv v that show ?thesis
    by (simp add: good_state_def)
qed

lemma good_milestone_format:
  assumes "good_milestone m"
  shows "\<exists>fs. format_milestone m = Inr fs"
proof -
  from assms obtain kv where "m = JObj kv"
    by (cases m) (simp_all add: good_milestone_def)
  with assms show ?thesis
    by (auto simp: good_milestone_def format_milestone_def)
qed

lemma good_milestones_format_each:
  "list_all good_milestone ms \<Longrightarrow> \<exists>fs. format_each ms acc = Inr fs"
proof (induction ms arbitrary: acc)
  case Nil
  then show ?case by simp
next
  case (Cons m ms)
  then obtain fs where "format_milestone m = Inr fs"
    using good_milestone_format [of m] by auto
  with Cons show ?case by simp
qed

lemma good_milestones_format:
  assumes "good_milestones (get_or st ''milestones'' JNull)"
  shows "\<exists>fs. format_milestones st = Inr fs"
proof (cases "truthy (get_or st ''milestones'' JNull)")
  case False
  then show ?thesis by (simp add: format_milestones_def)
next
  case True
  with assms obtain xs where xs: "get_or st ''milestones'' JNull = JArr xs"
    by (cases "get_or st ''milestones'' JNull") (simp_all add: good_milestones_def)
  with assms True have "list_all good_milestone (last_n 5 xs)"
    by (simp add: good_milestones_def)
  then obtain fs where "format_each (last_n 5 xs) [MILESTONES_HEADER] = Inr fs"
    using good_milestones_format_each by blast
  with True xs show ?thesis by (simp add: format_milestones_def)
qed

lemma get_or_update_other:
  "k \<noteq> k' \<Longrightarrow> get_or (AList.update k v st) k' d = get_or st k' d"
  by (simp add: get_or_def update_conv')

lemma good_derive_snapshot:
  assumes "good_log w" and "good_state n st"
  shows "\<exists>s. derive_snapshot e st w = Inr s"
proof -
  from assms(1) obtain c f where c: "count_activity e w = Inr (c, f)"
    using good_log_count_activity [of w e] by (metis surj_pair)
  from assms(1) obtain t where t: "extract_completed_tasks e w = Inr t"
    using good_log_extract by blast
  from assms(2) obtain kv xs where kv: "st = JObj kv" "map_of kv ''action_count'' = Some (JInt n)"
    and "good_milestones (get_or kv ''milestones'' JNull)"
    by (rule good_stateE)
  then obtain fs where "format_milestones kv = Inr fs"
    using good_milestones_format by blast
  with c t kv show ?thesis
    by (simp add: derive_snapshot_def)
qed


lemma map_of_add_task_other:
  "k \<noteq> ''task_id'' \<Longrightarrow> k \<noteq> ''task_status'' \<Longrightarrow> k \<noteq> ''task_completed'' \<Longrightarrow>
     map_of (add_task data ti entry) k = map_of entry k"
  by (simp add: add_task_def Let_def update_conv')

lemma build_entry_wf:
  assumes "wf_tool_input (get_or d ''tool_input'' (JObj []))"
  shows "\<exists>entry. build_entry e d = Inr entry \<and> good_line (Parsed (JObj entry))"
proof -
  have n: "map_of (new_entry e d) ''timestamp'' = Some (JStr (utc_iso e @ ''Z''))"
    "map_of (new_entry e d) ''file'' = None"
    by (simp_all add: new_entry_def)
  from assms obtain ti where ti: "get_or d ''tool_input'' (JObj []) = JObj ti"
    and "(\<exists>p. map_of ti ''file_path'' = Some (JStr p))
      \<or> (map_of ti ''file_path'' = None \<and> (\<exists>c. map_of ti ''command'' = Some (JStr c)))
      \<or> (map_of ti ''file_path'' = None \<and> map_of ti ''command'' = None)"
    by (rule wf_tool_inputE)
  then consider (path) p where "map_of ti ''file_path'' = Some (JStr p)"
    | (cmd) c where "map_of ti ''file_path'' = None" "map_of ti ''command'' = Some (JStr c)"
    | (none) "map_of ti ''file_path'' = None \<and> map_of ti ''command'' = None"
    by blast
  then show ?thesis
  proof cases
    case path
    with ti n show ?thesis
      by (simp add: build_entry_def add_context_def good_line_def map_of_add_task_other
          update_conv')
  next
    case cmd
    have "\<exists>c'. truncate_command (JStr c) = Inr c'"
      by (simp add: truncate_command_def)
    with cmd ti n show ?thesis
      by (auto simp: build_entry_def add_context_def good_line_def map_of_add_task_other
          update_conv')
  next
    case none
    with ti n show ?thesis
      by (simp add: build_entry_def add_context_def good_line_def map_of_add_task_other)
  qed
qed

lemma good_log_append_line: "good_log w \<Longrightarrow> good_line l \<Longrightarrow> good_log (append_line l w)"
  by (simp add: good_log_def append_line_def emit_def log_lines_def)

lemma good_log_cong: "activity_file w' = activity_file w \<Longrightarrow> good_log w' = good_log w"
  by (simp add: good_log_def log_lines_def)

lemma append_activity_wf:
  assumes "wf_tool_input (get_or d ''tool_input'' (JObj []))" and "good_log w"
  shows "\<exists>entry. fst (append_activity e d w) = Inr entry"
    and "good_log (snd (append_activity e d w))"
  using build_entry_wf [OF assms(1), of e] assms(2)
  by (auto simp: append_activity_def good_log_append_line)

lemma activity_file_try_update_roadmap:
  "activity_file (try_update_roadmap s w) = activity_file w"
  by (simp add: try_update_roadmap_def Let_def io_defs split: option.splits json.splits)

lemma activity_file_track_completion:
  "activity_file (snd (track_completion e tn ti st w)) = activity_file w"
  by (simp add: track_completion_def Let_def activity_file_try_update_roadmap
      split: sum.splits bool.splits json.splits)

lemma good_state_append_completed:
  assumes "good_state n st"
  shows "\<exists>st'. append_completed st task = Inr st' \<and> good_state n st'"
proof -
  from assms obtain kv xs where "st = JObj kv" "map_of kv ''action_count'' = Some (JInt n)"
    "map_of kv ''completed_tasks'' = Some (JArr xs)"
    "good_milestones (get_or kv ''milestones'' JNull)"
    by (rule good_stateE)
  then show ?thesis
    by (simp add: append_completed_def good_state_def update_conv' get_or_update_other)
qed

lemma track_completion_wf:
  assumes "good_state n st"
  shows "\<exists>st'. fst (track_completion e tn (JObj ti) st w) = Inr st' \<and> good_state n st'"
proof (cases "is_completion tn (JObj ti)")
  case (Inl x)
  then show ?thesis by (simp add: is_completion_def split: if_splits)
next
  case (Inr b)
  show ?thesis
  proof (cases b)
    case False
    with Inr assms show ?thesis by (simp add: track_completion_def)
  next
    case True
    let ?task = "JObj [(''id'', get_or ti ''taskId'' JNull),
       (''subject'', get_or ti ''subject'' (JStr (''Task #'' @ py_str e (get_or ti ''taskId'' JNull)))),
       (''time'', JStr (local_hms e))]"
    from good_state_append_completed [OF assms, of ?task] obtain st' where
      "append_completed st ?task = Inr st'" "good_state n st'" by blast
    with Inr True show ?thesis by (simp add: track_completion_def Let_def)
  qed
qed

lemma good_state_increment:
  assumes "good_state n st"
  shows "\<exists>st'. increment st = Inr (n + 1, st') \<and> good_state (n + 1) st'"
proof -
  from assms obtain kv xs where "st = JObj kv" "map_of kv ''action_count'' = Some (JInt n)"
    "map_of kv ''completed_tasks'' = Some (JArr xs)"
    "good_milestones (get_or kv ''milestones'' JNull)"
    by (rule good_stateE)
  then show ?thesis
    by (simp add: increment_def good_state_def update_conv' get_or_update_other)
qed

lemma activity_file_final_ack:
  "activity_file (snd (final_ack tn ti w)) = activity_file w"
  by (simp add: final_ack_def io_defs split: sum.splits bool.splits)

lemma final_ack_saved:
  "state_file (snd (final_ack tn ti (save_state st w))) = Some (Parsed st)"
  "activity_file (snd (final_ack tn ti (save_state st w))) = activity_file w"
  "snapshots_written (snd (final_ack tn ti (save_state st w))) = snapshots_written w"
  by (simp_all add: state_file_final_ack activity_file_final_ack snaps_final_ack
      snaps_save_state) (simp_all add: io_defs)

lemma progress_update_good:
  assumes "derive_snapshot e st w = Inr s" and "\<forall>c. encodable e c"
  shows "state_file (snd (progress_update e n st w)) = Some (Parsed st)"
    and "activity_file (snd (progress_update e n st w)) = activity_file w"
    and "snapshots_written (snd (progress_update e n st w)) = snapshots_written w @ [s]"
  using assms
  by (simp_all add: progress_update_def update_live_progress_def write_progress_def
      list_all_iff snaps_print snaps_save_state snaps_emit snaps_journal)
    (simp_all add: io_defs)

text \<open>Lines 279 to 301 on a state and a log as the program makes them.\<close>

lemma count_and_finish_good:
  assumes "good_state n st" and "good_log w" and "\<forall>c. encodable e c"
  shows "\<exists>st'. state_file (snd (count_and_finish e (JStr t) ti st w)) = Some (Parsed st')
       \<and> good_state (if t \<in> set MEANINGFUL_TOOLS then n + 1 else n) st'"
    and "activity_file (snd (count_and_finish e (JStr t) ti st w)) = activity_file w"
    and "length (snapshots_written (snd (count_and_finish e (JStr t) ti st w)))
       = length (snapshots_written w)
          + (if t \<in> set MEANINGFUL_TOOLS \<and> (n + 1) mod 5 = 0 then 1 else 0)"
proof -
  let ?r = "count_and_finish e (JStr t) ti st w"
  have "(\<exists>st'. state_file (snd ?r) = Some (Parsed st')
       \<and> good_state (if t \<in> set MEANINGFUL_TOOLS then n + 1 else n) st')
    \<and> activity_file (snd ?r) = activity_file w
    \<and> length (snapshots_written (snd ?r)) = length (snapshots_written w)
          + (if t \<in> set MEANINGFUL_TOOLS \<and> (n + 1) mod 5 = 0 then 1 else 0)"
  proof (cases "t \<in> set MEANINGFUL_TOOLS")
    case False
    with assms(1) show ?thesis
      by (simp add: count_and_finish_def final_ack_saved)
  next
    case True
    from good_state_increment [OF assms(1)] obtain st' where
      inc: "increment st = Inr (n + 1, st')" and g: "good_state (n + 1) st'" by blast
    show ?thesis
    proof (cases "(n + 1) mod 5 = 0")
      case False
      with True inc g show ?thesis
        by (simp add: count_and_finish_def final_ack_saved UPDATE_INTERVAL_def)
    next
      case five: True
      from good_derive_snapshot [OF assms(2) g, of e] obtain s where
        "derive_snapshot e st' w = Inr s" by blast
      with True inc g five assms(3) show ?thesis
        by (simp add: count_and_finish_def progress_update_good UPDATE_INTERVAL_def)
    qed
  qed
  then show "\<exists>st'. state_file (snd ?r) = Some (Parsed st')
       \<and> good_state (if t \<in> set MEANINGFUL_TOOLS then n + 1 else n) st'"
    and "activity_file (snd ?r) = activity_file w"
    and "length (snapshots_written (snd ?r)) = length (snapshots_written w)
          + (if t \<in> set MEANINGFUL_TOOLS \<and> (n + 1) mod 5 = 0 then 1 else 0)"
    by blast+
qed

lemma good_state_load_env:
  assumes "good_state n (load_state e w)"
  shows "good_state n (load_state e' w)"
proof (cases "\<exists>v. state_file w = Some (Parsed v)")
  case True
  with assms show ?thesis by (auto simp: load_state_def)
next
  case False
  then have "load_state e w = default_state e" "load_state e' w = default_state e'"
    by (auto simp: load_state_def split: option.splits parse.splits)
  with assms show ?thesis
    by (simp add: default_state_def good_state_def good_milestones_def get_or_def)
qed

lemma main_after_try:
  "state_file (snd (main e stdin w)) = state_file (snd (main_try e stdin w))"
  "activity_file (snd (main e stdin w)) = activity_file (snd (main_try e stdin w))"
  "snapshots_written (snd (main e stdin w)) = snapshots_written (snd (main_try e stdin w))"
proof -
  obtain c w' where m: "main_try e stdin w = (c, w')" by (cases "main_try e stdin w")
  have p: "state_file (print a w') = state_file w'" "activity_file (print a w') = activity_file w'"
    for a by (simp_all add: io_defs)
  from m show "state_file (snd (main e stdin w)) = state_file (snd (main_try e stdin w))"
    by (cases c) (simp_all add: main_def p)
  from m show "activity_file (snd (main e stdin w)) = activity_file (snd (main_try e stdin w))"
    by (cases c) (simp_all add: main_def p)
  from m show "snapshots_written (snd (main e stdin w)) = snapshots_written (snd (main_try e stdin w))"
    by (cases c) (simp_all add: main_def snaps_print)
qed

lemma wf_guard:
  assumes "wf_tool_input v"
  shows "\<exists>b. recursion_guard v = Inr b"
  using assms
  by (rule wf_tool_inputE) (auto simp: recursion_guard_def get_or_def Let_def split: bool.splits)

text \<open>Lines 260 to 301 on a well-formed event, a state and a log as the program makes
  them.\<close>

lemma pipeline_good:
  assumes "wf_tool_input (get_or d ''tool_input'' (JObj []))"
    and "good_state n (load_state e w)" and "good_log w" and "\<forall>c. encodable e c"
  shows "\<exists>st'. state_file (snd (pipeline e d (JStr t) (get_or d ''tool_input'' (JObj [])) w))
         = Some (Parsed st')
       \<and> good_state (if t \<in> set MEANINGFUL_TOOLS then n + 1 else n) st'"
    and "good_log (snd (pipeline e d (JStr t) (get_or d ''tool_input'' (JObj [])) w))"
    and "length (snapshots_written
           (snd (pipeline e d (JStr t) (get_or d ''tool_input'' (JObj [])) w)))
       = length (snapshots_written w)
          + (if t \<in> set MEANINGFUL_TOOLS \<and> (n + 1) mod 5 = 0 then 1 else 0)"
proof -
  let ?ti = "get_or d ''tool_input'' (JObj [])"
  let ?w0 = "get_claude_dir w"
  let ?st = "load_state e ?w0"
  from assms(1) obtain ti where ti: "?ti = JObj ti"
    by (rule wf_tool_inputE)
  have g0: "good_state n ?st" "good_log ?w0" "snapshots_written ?w0 = snapshots_written w"
    using assms(2,3)
    by (simp_all add: load_state_def good_log_def log_lines_def get_claude_dir_def
        snaps_emit snaps_journal) (simp_all add: emit_def)
  obtain r1 w1 where a: "append_activity e d ?w0 = (r1, w1)"
    by (cases "append_activity e d ?w0")
  from append_activity_wf [OF assms(1) g0(2), of e] a obtain entry where
    r1: "r1 = Inr entry" and g1: "good_log w1"
    by auto
  have j1: "snapshots_written w1 = snapshots_written w"
    using snaps_append_activity [of e d ?w0] a g0(3) by simp
  obtain r2 w2 where t: "track_completion e (JStr t) (JObj ti) ?st w1 = (r2, w2)"
    by (cases "track_completion e (JStr t) (JObj ti) ?st w1")
  from track_completion_wf [OF g0(1), of e "JStr t" ti w1] t obtain st2 where
    r2: "r2 = Inr st2" and g2: "good_state n st2"
    by auto
  have l2: "good_log w2"
    using activity_file_track_completion [of e "JStr t" "JObj ti" ?st w1] t g1
      good_log_cong [of w2 w1]
    by simp
  have j2: "snapshots_written w2 = snapshots_written w"
    using snaps_track_completion [of e "JStr t" "JObj ti" ?st w1] t j1 by simp
  have p: "pipeline e d (JStr t) ?ti w = count_and_finish e (JStr t) (JObj ti) st2 w2"
    using a r1 t r2 ti by (simp add: pipeline_def Let_def)
  show "\<exists>st'. state_file (snd (pipeline e d (JStr t) ?ti w)) = Some (Parsed st')
       \<and> good_state (if t \<in> set MEANINGFUL_TOOLS then n + 1 else n) st'"
    unfolding p by (rule count_and_finish_good(1) [OF g2 l2 assms(4)])
  show "good_log (snd (pipeline e d (JStr t) ?ti w))"
    unfolding p using count_and_finish_good(2) [OF g2 l2 assms(4), of t "JObj ti"] l2
      good_log_cong [of "snd (count_and_finish e (JStr t) (JObj ti) st2 w2)" w2]
    by simp
  show "length (snapshots_written (snd (pipeline e d (JStr t) ?ti w)))
       = length (snapshots_written w)
          + (if t \<in> set MEANINGFUL_TOOLS \<and> (n + 1) mod 5 = 0 then 1 else 0)"
    unfolding p using count_and_finish_good(3) [OF g2 l2 assms(4), of t "JObj ti"] j2
    by simp
qed

text \<open>One invocation on a well-formed event.\<close>

lemma invoke_good:
  assumes "wf_event ev" and "good_state n (load_state e0 w)" and "good_log w"
    and "\<forall>c. encodable (fst ev) c"
  shows "good_state (if counted ev then n + 1 else n) (load_state e1 (snd (invoke ev w)))"
    and "good_log (snd (invoke ev w))"
    and "length (snapshots_written (snd (invoke ev w)))
       = (if counted ev \<and> (n + 1) mod 5 = 0 then 1 else 0)"
proof -
  let ?w = "w\<lparr>journal := []\<rparr>"
  let ?e = "fst ev"
  from assms(1) obtain v where v: "snd ev = Parsed v"
    by (cases "snd ev") (simp_all add: wf_event_def)
  with assms(1) obtain d where d: "snd ev = Parsed (JObj d)"
    by (cases v) (simp_all add: wf_event_def)
  with assms(1) obtain tv where "map_of d ''tool_name'' = Some tv" "is_str tv"
    and wf: "wf_tool_input (get_or d ''tool_input'' (JObj []))"
    by (cases "map_of d ''tool_name''") (simp_all add: wf_event_def)
  then obtain t where t: "map_of d ''tool_name'' = Some (JStr t)"
    by (auto elim: is_strE)
  let ?ti = "get_or d ''tool_input'' (JObj [])"
  have tn: "get_or d ''tool_name'' (JStr []) = JStr t"
    using t by (simp add: get_or_def)
  have gs: "good_state n (load_state ?e ?w)"
    using good_state_load_env [OF assms(2), of ?e] by (simp add: load_state_def)
  have gl: "good_log ?w"
    using assms(3) by (simp add: good_log_def log_lines_def)
  have s0: "snapshots_written ?w = []"
    by (simp add: snapshots_written_def)
  from wf_guard [OF wf] obtain b where b: "recursion_guard ?ti = Inr b" by blast
  have "good_state (if counted ev then n + 1 else n) (load_state e1 (snd (invoke ev w)))
    \<and> good_log (snd (invoke ev w))
    \<and> length (snapshots_written (snd (invoke ev w)))
       = (if counted ev \<and> (n + 1) mod 5 = 0 then 1 else 0)"
  proof (cases b)
    case True
    with b d have m: "main_try ?e (snd ev) ?w = (Returned, print AckEmpty ?w)"
      by (simp add: main_try_def Let_def)
    have c: "\<not> counted ev"
      using b d True by (simp add: counted_def)
    have "load_state e1 (snd (invoke ev w)) = load_state e1 w"
      using m by (simp add: invoke_def load_state_def main_after_try(1) io_defs)
    moreover have "good_log (snd (invoke ev w))"
      using m assms(3)
      by (simp add: invoke_def good_log_def log_lines_def main_after_try(2) io_defs)
    moreover have "snapshots_written (snd (invoke ev w)) = []"
      using m by (simp add: invoke_def main_after_try(3) snaps_print s0)
    ultimately show ?thesis
      using c good_state_load_env [OF assms(2), of e1] by simp
  next
    case False
    with b d tn have m: "main_try ?e (snd ev) ?w = pipeline ?e d (JStr t) ?ti ?w"
      by (simp add: main_try_def Let_def)
    have c: "counted ev = (t \<in> set MEANINGFUL_TOOLS)"
      using b d tn False by (simp add: counted_def)
    from pipeline_good(1) [OF wf gs gl assms(4), of t] obtain st' where
      "state_file (snd (pipeline ?e d (JStr t) ?ti ?w)) = Some (Parsed st')"
      "good_state (if t \<in> set MEANINGFUL_TOOLS then n + 1 else n) st'"
      by blast
    then have "good_state (if counted ev then n + 1 else n) (load_state e1 (snd (invoke ev w)))"
      using m c by (simp add: invoke_def load_state_def main_after_try(1))
    moreover have "good_log (snd (invoke ev w))"
      using pipeline_good(2) [OF wf gs gl assms(4), of t] m
      by (simp add: invoke_def main_after_try(2) good_log_def log_lines_def)
    moreover have "length (snapshots_written (snd (invoke ev w)))
       = (if counted ev \<and> (n + 1) mod 5 = 0 then 1 else 0)"
      using pipeline_good(3) [OF wf gs gl assms(4), of t] m c s0
      by (simp add: invoke_def main_after_try(3))
    ultimately show ?thesis by simp
  qed
  then show "good_state (if counted ev then n + 1 else n) (load_state e1 (snd (invoke ev w)))"
    and "good_log (snd (invoke ev w))"
    and "length (snapshots_written (snd (invoke ev w)))
       = (if counted ev \<and> (n + 1) mod 5 = 0 then 1 else 0)"
    by blast+
qed

lemma run_trigger:
  assumes "good_state n (load_state e w)" and "good_log w"
    and "\<forall>ev\<in>set evs. wf_event ev \<and> (\<forall>c. encodable (fst ev) c)" and "i < length evs"
  shows "length (snapshots_written (snd (run w evs ! i)))
     = (if counted (evs ! i) \<and> (n + int (length (filter counted (take (Suc i) evs)))) mod 5 = 0
        then 1 else 0)"
  using assms
proof (induction evs arbitrary: w n i)
  case Nil
  then show ?case by simp
next
  case (Cons ev evs)
  have wf: "wf_event ev" and enc: "\<forall>c. encodable (fst ev) c"
    using Cons.prems(3) by simp_all
  note step = invoke_good [OF wf Cons.prems(1) Cons.prems(2) enc]
  show ?case
  proof (cases i)
    case 0
    with step(3) show ?thesis by simp
  next
    case (Suc j)
    let ?w = "snd (invoke ev w)"
    let ?n = "if counted ev then n + 1 else n"
    have j: "j < length evs" using Cons.prems(4) Suc by simp
    have "length (snapshots_written (snd (run ?w evs ! j)))
     = (if counted (evs ! j) \<and> (?n + int (length (filter counted (take (Suc j) evs)))) mod 5 = 0
        then 1 else 0)"
      using Cons.IH [OF step(1) [of e] step(2) _ j] Cons.prems(3) by simp
    moreover have "?n + int (length (filter counted (take (Suc j) evs)))
      = n + int (length (filter counted (take (Suc i) (ev # evs))))"
      using Suc by simp
    ultimately show ?thesis
      using Suc by simp
  qed
qed


text \<open>
  C1, as amended. Take a run in which every event is well-formed (a dictionary whose
  \<open>tool_name\<close> is a string and whose \<open>tool_input\<close> is absent or a dictionary with a
  string \<open>file_path\<close> or, without \<open>file_path\<close>, with a string \<open>command\<close> or none) and
  is processed under a locale whose encoding has every character. Let the run start
  from a state document that is a dictionary whose \<open>action_count\<close> is the integer \<open>n\<close>,
  whose \<open>completed_tasks\<close> is a list and whose \<open>milestones\<close> are none, a false value or
  a list whose last five entries are dictionaries with \<open>time\<close> and \<open>description\<close>
  (without a state file the program starts from such a document, with \<open>n = 0\<close>), and
  from a log, if there is one, of which every line is either not JSON or a dictionary
  whose \<open>timestamp\<close> and \<open>file\<close>, when present, are strings. Then an invocation of the run rewrites the snapshot
  exactly when its event is counted, that is, names a meaningful tool and is not stopped
  by the recursion guard, and \<open>n\<close> plus the number of counted events up to and including
  it (the value of \<open>action_count\<close> after the increment) is a multiple of
  \<open>UPDATE_INTERVAL\<close>; and it rewrites the snapshot at most once.
\<close>

theorem snapshot_trigger:
  assumes "good_state n (load_state e w)" and "good_log w"
    and "\<forall>ev\<in>set evs. wf_event ev \<and> (\<forall>c. encodable (fst ev) c)" and "i < length evs"
  shows "(snapshots_written (snd (run w evs ! i)) \<noteq> [])
       = (counted (evs ! i)
           \<and> (n + int (length (filter counted (take (Suc i) evs)))) mod UPDATE_INTERVAL = 0)
     \<and> length (snapshots_written (snd (run w evs ! i))) \<le> 1"
  using run_trigger [OF assms]
  by (auto simp: UPDATE_INTERVAL_def split: if_splits)

theorem snapshot_trigger_witness:
  "good_state 0 (load_state env0 fresh) \<and> good_log fresh \<and> list_all wf_event guarded_run
     \<and> map fst guarded_run = replicate 6 env0 \<and> encodable env0 = (\<lambda>c. True)
     \<and> \<not> counted (guarded_run ! 0) \<and> counted (guarded_run ! 5)
     \<and> snapshots_written (snd (run fresh guarded_run ! 5)) \<noteq> []"
proof -
  have a: "good_state 0 (load_state env0 fresh)" by code_simp
  have b: "good_log fresh" by code_simp
  have c: "list_all wf_event guarded_run" by code_simp
  have m: "map fst guarded_run = replicate 6 env0"
    by (simp add: guarded_run_def edit_event_def numeral_eq_Suc)
  have k: "encodable env0 = (\<lambda>c. True)"
    by (simp add: env0_def)
  have "\<forall>ev\<in>set guarded_run. fst ev = env0"
    by (simp add: guarded_run_def edit_event_def)
  with c k have c': "\<forall>ev\<in>set guarded_run. wf_event ev \<and> (\<forall>c. encodable (fst ev) c)"
    by (simp add: list_all_iff)
  have d: "5 < length guarded_run" by (simp add: guarded_run_def)
  have f: "\<not> counted (guarded_run ! 0)" by code_simp
  have g: "counted (guarded_run ! 5)
     \<and> (0 + int (length (filter counted (take (Suc 5) guarded_run)))) mod UPDATE_INTERVAL = 0"
    by code_simp
  from snapshot_trigger [OF a b c' d] g a b c f m k show ?thesis
    by simp
qed

text \<open>
  C1, as stated, fails: the first event of this run names the meaningful tool \<open>Edit\<close>
  on a path under \<open>.claude/\<close> and is ignored by the recursion guard, so the fifth
  meaningful event writes no snapshot and the sixth does.
\<close>

theorem fifth_meaningful_event_counterexample:
  "meaningful_event (guarded_run ! 4)
     \<and> length (filter meaningful_event (take 5 guarded_run)) = 5
     \<and> snapshot_counts (run fresh guarded_run) = [0, 0, 0, 0, 0, 1]"
  by code_simp

subsection \<open>Lines of the log that are not records\<close>

lemma unparseable_lines_skipped:
  assumes "activity_file w = Some (earlier @ Unparseable # later)"
  shows "count_activity e w = count_activity e (w\<lparr>activity_file := Some (earlier @ later)\<rparr>)"
    and "extract_completed_tasks e w
       = extract_completed_tasks e (w\<lparr>activity_file := Some (earlier @ later)\<rparr>)"
  using assms
  by (simp_all add: count_activity_def extract_completed_tasks_def scan_skip count_line_def
      completed_line_def)

text \<open>
  C8. Only a line that is not JSON is skipped. The line \<open>42\<close> is JSON and no
  dictionary: both scans end at it with \<open>AttributeError\<close> and never reach the record
  after it, which they count when the first line is not JSON at all. In an invocation
  that is due to write the snapshot (the state counts 4 actions, the event is an
  \<open>Edit\<close>), the exception ends the pipeline: the acknowledgement reports it, and
  neither the snapshot nor the state is written.
\<close>

theorem json_line_aborts_scan:
  "count_activity env0 number_line_log = Inl AttributeError
     \<and> extract_completed_tasks env0 number_line_log = Inl AttributeError
     \<and> count_activity env0 garbage_line_log = Inr (no_counts\<lparr>edits := 1\<rparr>, [''a.py''])
     \<and> extract_completed_tasks env0 garbage_line_log = Inr []
     \<and> printed (snd (invoke (edit_event ''src/app.py'') number_line_log))
         = [AckMessage [Lit ''Activity tracker: '', Err AttributeError]]
     \<and> snapshots_written (snd (invoke (edit_event ''src/app.py'') number_line_log)) = []
     \<and> states_saved (snd (invoke (edit_event ''src/app.py'') number_line_log)) = []
     \<and> length (snapshots_written (snd (invoke (edit_event ''src/app.py'') garbage_line_log))) = 1"
  by code_simp

subsection \<open>An exception in \<open>update_live_progress\<close>\<close>

lemma progress_update_raises:
  "derive_snapshot e state w = Inl x \<Longrightarrow> progress_update e n state w = (Raised x, w)"
  by (simp add: progress_update_def update_live_progress_def)

text \<open>
  C3. When \<open>update_live_progress\<close> raises, \<open>save_state\<close> is not reached. The first event
  of this run has a list as \<open>file_path\<close>; it passes the guard, is logged and counted.
  Four edits later the snapshot is due, \<open>Path\<close> raises \<open>TypeError\<close> on the list while the
  log is scanned, and the fifth invocation ends with the error acknowledgement and exit
  status 0: its record is in the log, but it saves no state, and the state file still
  counts 4 actions.
\<close>

theorem snapshot_error_loses_state:
  "saved_counts (run fresh poisoned_run) = [1, 1, 1, 1, 0]
     \<and> snapshot_counts (run fresh poisoned_run) = [0, 0, 0, 0, 0]
     \<and> count_activity env0 (snd (run fresh poisoned_run ! 4)) = Inl TypeError
     \<and> fst (run fresh poisoned_run ! 4) = 0
     \<and> printed (snd (run fresh poisoned_run ! 4))
         = [AckMessage [Lit ''Activity tracker: '', Err TypeError]]
     \<and> length (lines_appended (snd (run fresh poisoned_run ! 4))) = 1
     \<and> state_file (snd (run fresh poisoned_run ! 4)) = Some (Parsed
          (JObj [(''action_count'', JInt 4), (''completed_tasks'', JArr []),
                 (''session_start'', JStr ''11:00:00''), (''milestones'', JArr [])]))"
  by code_simp

text \<open>The write of the snapshot can raise as well: in a locale whose encoding does
  not have the letter, the fifth edit of a file with an accented name leaves
  \<open>LIVE-PROGRESS.md\<close> empty and saves no state.\<close>

lemma unencodable_path_blanks_snapshot:
  "snapshot_counts (run fresh accent_run) = [0, 0, 0, 0, 0]
     \<and> saved_counts (run fresh accent_run) = [1, 1, 1, 1, 0]
     \<and> printed (snd (run fresh accent_run ! 4))
         = [AckMessage [Lit ''Activity tracker: '', Err UnicodeEncodeError]]
     \<and> progress_file (snd (run fresh accent_run ! 4)) = Some Blank"
  by code_simp

end
